theory Spec2Isabelle
  imports Main "HOL-Library.Sublist"
begin

section \<open>Python strings\<close>

text \<open>
  A Python \<^verbatim>\<open>str\<close> is a sequence of Unicode code points. It is modelled as a list of
  natural numbers, one per code point, so that \<^verbatim>\<open>len\<close>, \<^verbatim>\<open>strip\<close> and
  \<^verbatim>\<open>splitlines\<close> see the same elements as the interpreter does. \<open>lit\<close> turns an
  ASCII literal of the source into such a list.
\<close>

type_synonym pystr = "nat list"

definition lit :: "string \<Rightarrow> pystr" where
  "lit s = map of_char s"

text \<open>
  \<^verbatim>\<open>str.isspace\<close> for one code point, which decides what \<^verbatim>\<open>str.strip()\<close> removes:
  the code points CPython lists as whitespace (U+0009..U+000D, U+001C..U+0020, U+0085,
  U+00A0, U+1680, U+2000..U+200A, U+2028, U+2029, U+202F, U+205F, U+3000).
\<close>

definition is_space :: "nat \<Rightarrow> bool" where
  "is_space c \<longleftrightarrow>
     (9 \<le> c \<and> c \<le> 13) \<or> (28 \<le> c \<and> c \<le> 32) \<or> c = 133 \<or> c = 160 \<or> c = 5760 \<or>
     (8192 \<le> c \<and> c \<le> 8202) \<or> c = 8232 \<or> c = 8233 \<or> c = 8239 \<or> c = 8287 \<or>
     c = 12288"

text \<open>
  The line boundaries of \<^verbatim>\<open>str.splitlines()\<close>: LF, VT, FF, CR, FS, GS, RS, NEL,
  LINE SEPARATOR and PARAGRAPH SEPARATOR. CR followed by LF is one boundary.
\<close>

definition is_linebreak :: "nat \<Rightarrow> bool" where
  "is_linebreak c \<longleftrightarrow>
     (10 \<le> c \<and> c \<le> 13) \<or> (28 \<le> c \<and> c \<le> 30) \<or> c = 133 \<or> c = 8232 \<or> c = 8233"

text \<open>\<^verbatim>\<open>s.strip()\<close>: leading and trailing whitespace removed.\<close>

definition strip :: "pystr \<Rightarrow> pystr" where
  "strip s = rev (dropWhile is_space (rev (dropWhile is_space s)))"

text \<open>
  \<^verbatim>\<open>s.splitlines()\<close>: the text is cut at every line boundary, the boundaries are not
  kept, and a boundary at the very end opens no further line. The first argument is the
  part of the current line read so far.
\<close>

fun splitlines_from :: "pystr \<Rightarrow> pystr \<Rightarrow> pystr list" where
  "splitlines_from cur [] = (if cur = [] then [] else [cur])"
| "splitlines_from cur [c] =
     (if is_linebreak c then [cur] else [cur @ [c]])"
| "splitlines_from cur (c # d # cs) =
     (if c = 13 \<and> d = 10 then cur # splitlines_from [] cs
      else if is_linebreak c then cur # splitlines_from [] (d # cs)
      else splitlines_from (cur @ [c]) (d # cs))"

definition splitlines :: "pystr \<Rightarrow> pystr list" where
  "splitlines s = splitlines_from [] s"

text \<open>
  The f-strings of the source are written with \<open>@\<close>; the quotation marks inside them
  are the code points 34 (double) and 39 (single).

  \<^verbatim>\<open>line.startswith(tuple(ps))\<close> and \<^verbatim>\<open>line.endswith(tuple(es))\<close>: true when one
  of the given strings is a prefix (a suffix) of the line; false for the empty tuple.
\<close>

definition startswith :: "pystr \<Rightarrow> pystr \<Rightarrow> bool" where
  "startswith line p \<longleftrightarrow> prefix p line"

definition endswith :: "pystr \<Rightarrow> pystr \<Rightarrow> bool" where
  "endswith line e \<longleftrightarrow> suffix e line"

definition startswith_any :: "pystr \<Rightarrow> pystr list \<Rightarrow> bool" where
  "startswith_any line ps \<longleftrightarrow> list_ex (startswith line) ps"

definition endswith_any :: "pystr \<Rightarrow> pystr list \<Rightarrow> bool" where
  "endswith_any line es \<longleftrightarrow> list_ex (endswith line) es"

section \<open>Errors, the external command and the XML library\<close>

text \<open>
  Every exception the code can raise is a value. \<open>RuntimeError msg cause\<close> carries the
  \<^verbatim>\<open>__cause__\<close> set by \<^verbatim>\<open>raise ... from e\<close> (\<open>None\<close> for a plain \<^verbatim>\<open>raise\<close>).
  \<open>ValueError\<close>, \<open>XMLSyntaxError\<close> and \<open>ReError\<close> are what \<^verbatim>\<open>shlex.split\<close>,
  \<^verbatim>\<open>etree.fromstring\<close> and \<^verbatim>\<open>re.compile\<close> raise on input they reject.
\<close>

datatype error =
    CalledProcessError "pystr list" int pystr
  | RuntimeError pystr "error option"
  | KeyError pystr
  | AttributeError
  | ValueError
  | XMLSyntaxError
  | ReError

text \<open>What a finished process leaves behind.\<close>

record completed =
  returncode :: int
  stdout :: pystr
  stderr :: pystr

text \<open>An element of an \<^verbatim>\<open>lxml.etree\<close> tree: tag, attributes, text (\<open>etext\<close>, the attribute \<^verbatim>\<open>.text\<close>) and child elements.\<close>

datatype element =
  Element (tag: pystr) (attrib: "(pystr \<times> pystr) list") (etext: "pystr option")
    (children: "element list")

text \<open>
  The surroundings of the provider: the process that an argument vector starts, and the
  two library functions whose results depend on their whole input text. \<open>None\<close> is the
  input the library function rejects: \<^verbatim>\<open>shlex.split\<close> then raises \<^verbatim>\<open>ValueError\<close>,
  \<^verbatim>\<open>etree.fromstring\<close> raises \<^verbatim>\<open>XMLSyntaxError\<close>.
\<close>

record env =
  proc :: "pystr list \<Rightarrow> completed"
  shlex_split :: "pystr \<Rightarrow> pystr list option"
  fromstring :: "pystr \<Rightarrow> element option"

text \<open>
  The observable effects: the argument vectors of the processes spawned so far, the
  lines printed so far and the position of the progress bar.
\<close>

record world =
  calls :: "pystr list list"
  printed :: "pystr list"
  progress :: nat

text \<open>
  Modelled from the spec: \<^verbatim>\<open>run_command\<close> of \<^verbatim>\<open>relx.utils.tools\<close>, which is not among
  the sources. Section 4.1: it spawns one process per call, captures stdout and stderr,
  and fails on a non-zero exit with the command, the exit code and the captured stderr;
  the providers catch that failure as \<^verbatim>\<open>CalledProcessError\<close> and read its
  \<^verbatim>\<open>stderr\<close>.
\<close>

definition run_command :: "env \<Rightarrow> pystr list \<Rightarrow> world \<Rightarrow> (error + completed) \<times> world" where
  "run_command e argv w =
     (let result = proc e argv;
          w' = w\<lparr>calls := calls w @ [argv]\<rparr>
      in if returncode result \<noteq> 0
         then (Inl (CalledProcessError argv (returncode result) (stderr result)), w')
         else (Inr result, w'))"

text \<open>\<^verbatim>\<open>tree.find(name)\<close>, \<^verbatim>\<open>tree.findall(name)\<close> and \<^verbatim>\<open>elem.get(key)\<close> for a plain tag name.\<close>

definition find_elem :: "element \<Rightarrow> pystr \<Rightarrow> element option" where
  "find_elem t name = List.find (\<lambda>c. tag c = name) (children t)"

definition findall :: "element \<Rightarrow> pystr \<Rightarrow> element list" where
  "findall t name = filter (\<lambda>c. tag c = name) (children t)"

definition get_attr :: "element \<Rightarrow> pystr \<Rightarrow> pystr option" where
  "get_attr t key = map_of (attrib t) key"

text \<open>The values stored in the dictionaries the provider returns.\<close>

datatype pyval = PyNone | PyStr pystr | PyList "pyval list"

definition of_opt :: "pystr option \<Rightarrow> pyval" where
  "of_opt x = (case x of None \<Rightarrow> PyNone | Some s \<Rightarrow> PyStr s)"

type_synonym info = "pystr \<rightharpoonup> pyval"

section \<open>providers.py: OscProvider\<close>

subsection \<open>list_packages\<close>

definition packages_command :: "pystr \<Rightarrow> pystr \<Rightarrow> pystr" where
  "packages_command api_url project = lit ''osc -A '' @ api_url @ lit '' ls '' @ project"

definition OscProvider_list_packages ::
  "env \<Rightarrow> pystr \<Rightarrow> pystr \<Rightarrow> world \<Rightarrow> (error + pystr list) \<times> world" where
  "OscProvider_list_packages e api_url project w =
     (let command = packages_command api_url project
      in case shlex_split e command of
           None \<Rightarrow> (Inl ValueError, w)
         | Some argv \<Rightarrow>
             (case run_command e argv w of
                (Inl err, w') \<Rightarrow> (Inl err, w')
              | (Inr result, w') \<Rightarrow>
                  (if stdout result \<noteq> []
                   then (Inr (map strip (splitlines (strip (stdout result)))), w')
                   else (Inr [], w'))))"

subsection \<open>list_artifacts\<close>

text \<open>The loop over the lines of stdout; the last argument is \<^verbatim>\<open>filtered_artifacts\<close>.\<close>

fun artifacts_loop :: "pystr \<Rightarrow> pystr list \<Rightarrow> pystr list \<Rightarrow> pystr list \<Rightarrow> pystr list \<Rightarrow> pystr list" where
  "artifacts_loop repo_name invalid_start invalid_extensions [] filtered_artifacts =
     filtered_artifacts"
| "artifacts_loop repo_name invalid_start invalid_extensions (raw # rest) filtered_artifacts =
     (let line = strip raw
      in if \<not> startswith_any line invalid_start \<and> \<not> startswith line (repo_name @ lit ''/'')
         then (if \<not> endswith_any line invalid_extensions
               then artifacts_loop repo_name invalid_start invalid_extensions rest
                      (filtered_artifacts @ [line])
               else artifacts_loop repo_name invalid_start invalid_extensions rest
                      filtered_artifacts)
         else artifacts_loop repo_name invalid_start invalid_extensions rest
                filtered_artifacts)"

definition artifacts_command :: "pystr \<Rightarrow> pystr \<Rightarrow> pystr \<Rightarrow> pystr \<Rightarrow> pystr" where
  "artifacts_command api_url project package repo_name =
     lit ''osc -A '' @ api_url @ lit '' ls '' @ project @ lit '' '' @ package @ lit '' -b -r ''
       @ repo_name"

definition OscProvider_list_artifacts ::
  "env \<Rightarrow> pystr \<Rightarrow> pystr \<Rightarrow> pystr \<Rightarrow> pystr \<Rightarrow> pystr list \<Rightarrow> pystr list \<Rightarrow> world
     \<Rightarrow> (error + pystr list) \<times> world" where
  "OscProvider_list_artifacts e api_url project package repo_name invalid_start
       invalid_extensions w =
     (let command = artifacts_command api_url project package repo_name
      in case shlex_split e command of
           None \<Rightarrow> (Inl ValueError, w)
         | Some argv \<Rightarrow>
             (case run_command e argv w of
                (Inl err, w') \<Rightarrow> (Inl err, w')
              | (Inr result, w') \<Rightarrow>
                  (if stdout result = [] then (Inr [], w')
                   else (Inr (artifacts_loop repo_name invalid_start invalid_extensions
                                (splitlines (strip (stdout result))) []), w'))))"

subsection \<open>get_groups\<close>

text \<open>The nested loop that collects the \<^verbatim>\<open>userid\<close> of every \<^verbatim>\<open>person/person\<close>.\<close>

fun users_of_person :: "element list \<Rightarrow> pyval list \<Rightarrow> pyval list" where
  "users_of_person [] users = users"
| "users_of_person (user # rest) users =
     users_of_person rest (users @ [of_opt (get_attr user (lit ''userid''))])"

fun users_of_people :: "element list \<Rightarrow> pyval list \<Rightarrow> pyval list" where
  "users_of_people [] users = users"
| "users_of_people (person # rest) users =
     users_of_people rest (users_of_person (findall person (lit ''person'')) users)"

definition group_info :: "element \<Rightarrow> bool \<Rightarrow> info" where
  "group_info tree is_fulllist =
     (let info0 = Map.empty;
          title = find_elem tree (lit ''title'');
          info1 = info0(lit ''Group'' \<mapsto> (case title of Some t \<Rightarrow> of_opt (etext t) | None \<Rightarrow> PyNone));
          email = find_elem tree (lit ''email'');
          info2 = info1(lit ''Email'' \<mapsto> (case email of Some t \<Rightarrow> of_opt (etext t) | None \<Rightarrow> PyNone));
          maintainers = findall tree (lit ''maintainer'');
          info3 = info2(lit ''Maintainers'' \<mapsto>
                    PyList (map (\<lambda>t. of_opt (get_attr t (lit ''userid''))) maintainers))
      in if is_fulllist
         then info3(lit ''Users'' \<mapsto> PyList (users_of_people (findall tree (lit ''person'')) []))
         else info3)"

text \<open>
  The \<^verbatim>\<open>except CalledProcessError as e\<close> clause of both lookups:
  \<^verbatim>\<open>raise RuntimeError(f"{prefix}'{name}': {e.stderr.strip()}") from e\<close>.
  Any other exception passes through. \<open>get_groups_try\<close> and \<open>get_users_try\<close> are the
  bodies of the two \<^verbatim>\<open>try\<close> blocks.
\<close>

definition reraise :: "pystr \<Rightarrow> pystr \<Rightarrow> error \<Rightarrow> error" where
  "reraise what name err =
     (case err of
        CalledProcessError cmd code serr \<Rightarrow>
          RuntimeError (what @ [39] @ name @ [39] @ lit '': '' @ strip serr) (Some err)
      | _ \<Rightarrow> err)"

definition groups_command :: "pystr \<Rightarrow> pystr \<Rightarrow> pystr" where
  "groups_command api_url grp =
     lit ''osc -A '' @ api_url @ lit '' api '' @ [34] @ lit ''/group/'' @ grp @ [34]"

definition get_groups_try ::
  "env \<Rightarrow> pystr \<Rightarrow> pystr \<Rightarrow> bool \<Rightarrow> world \<Rightarrow> (error + info) \<times> world" where
  "get_groups_try e api_url grp is_fulllist w =
     (let command = groups_command api_url grp
      in case shlex_split e command of
           None \<Rightarrow> (Inl ValueError, w)
         | Some argv \<Rightarrow>
             (case run_command e argv w of
                (Inl err, w') \<Rightarrow> (Inl err, w')
              | (Inr output, w') \<Rightarrow>
                  (case fromstring e (stdout output) of
                     None \<Rightarrow> (Inl XMLSyntaxError, w')
                   | Some tree \<Rightarrow> (Inr (group_info tree is_fulllist), w'))))"

definition OscProvider_get_groups ::
  "env \<Rightarrow> pystr \<Rightarrow> pystr \<Rightarrow> bool \<Rightarrow> world \<Rightarrow> (error + info) \<times> world" where
  "OscProvider_get_groups e api_url grp is_fulllist w =
     (case get_groups_try e api_url grp is_fulllist w of
        (Inl err, w') \<Rightarrow> (Inl (reraise (lit ''Failed to get group '') grp err), w')
      | (Inr i, w') \<Rightarrow> (Inr i, w'))"

subsection \<open>get_users\<close>

text \<open>
  The dictionary built for one \<^verbatim>\<open>person\<close>. \<^verbatim>\<open>person.find(name).text\<close> raises
  \<^verbatim>\<open>AttributeError\<close> when the child is absent, since \<^verbatim>\<open>find\<close> returns \<^verbatim>\<open>None\<close>.
\<close>

definition child_text :: "element \<Rightarrow> pystr \<Rightarrow> error + pyval" where
  "child_text person name =
     (case find_elem person name of
        None \<Rightarrow> Inl AttributeError
      | Some c \<Rightarrow> Inr (of_opt (etext c)))"

definition user_info :: "element \<Rightarrow> error + info" where
  "user_info person =
     (case child_text person (lit ''login'') of
        Inl err \<Rightarrow> Inl err
      | Inr login \<Rightarrow>
          (case child_text person (lit ''email'') of
             Inl err \<Rightarrow> Inl err
           | Inr email \<Rightarrow>
               (case child_text person (lit ''realname'') of
                  Inl err \<Rightarrow> Inl err
                | Inr realname \<Rightarrow>
                    (case child_text person (lit ''state'') of
                       Inl err \<Rightarrow> Inl err
                     | Inr state \<Rightarrow>
                         Inr ((((Map.empty(lit ''User'' \<mapsto> login))(lit ''Email'' \<mapsto> email))
                                (lit ''Name'' \<mapsto> realname))(lit ''State'' \<mapsto> state))))))"

fun users_loop :: "element list \<Rightarrow> info list \<Rightarrow> error + info list" where
  "users_loop [] users_info = Inr users_info"
| "users_loop (person # rest) users_info =
     (case user_info person of
        Inl err \<Rightarrow> Inl err
      | Inr i \<Rightarrow> users_loop rest (users_info @ [i]))"

text \<open>
  The \<^verbatim>\<open>if\<close>/\<^verbatim>\<open>elif\<close> chain that builds the command; \<open>None\<close> is the final
  \<^verbatim>\<open>else\<close>, which raises.
\<close>

definition users_command :: "pystr \<Rightarrow> pystr \<Rightarrow> bool \<Rightarrow> bool \<Rightarrow> bool \<Rightarrow> pystr option" where
  "users_command api_url search_text is_login is_email is_realname =
     (if is_login
      then Some (lit ''osc -A '' @ api_url @ lit '' api '' @ [39]
                 @ lit ''/search/person?match=@login='' @ [34] @ search_text @ [34] @ [39])
      else if is_email
      then Some (lit ''osc -A '' @ api_url @ lit '' api '' @ [39]
                 @ lit ''/search/person?match=@email='' @ [34] @ search_text @ [34] @ [39])
      else if is_realname
      then Some (lit ''osc -A '' @ api_url @ lit '' api '' @ [39]
                 @ lit ''/search/person?match=contains(@realname,'' @ [34] @ search_text
                 @ [34] @ lit '')'' @ [39])
      else None)"

definition get_users_try ::
  "env \<Rightarrow> pystr \<Rightarrow> pystr \<Rightarrow> bool \<Rightarrow> bool \<Rightarrow> bool \<Rightarrow> world \<Rightarrow> (error + info list) \<times> world" where
  "get_users_try e api_url search_text is_login is_email is_realname w =
     (case users_command api_url search_text is_login is_email is_realname of
        None \<Rightarrow> (Inl (RuntimeError (lit ''Invalid user search.'') None), w)
      | Some command \<Rightarrow>
          (case shlex_split e command of
             None \<Rightarrow> (Inl ValueError, w)
           | Some argv \<Rightarrow>
               (case run_command e argv w of
                  (Inl err, w') \<Rightarrow> (Inl err, w')
                | (Inr output, w') \<Rightarrow>
                    (case fromstring e (stdout output) of
                       None \<Rightarrow> (Inl XMLSyntaxError, w')
                     | Some tree \<Rightarrow>
                         (let people = findall tree (lit ''person'')
                          in if people = [] then (Inr [], w')
                             else (case users_loop people [] of
                                     Inl err \<Rightarrow> (Inl err, w')
                                   | Inr users_info \<Rightarrow> (Inr users_info, w')))))))"

definition OscProvider_get_users ::
  "env \<Rightarrow> pystr \<Rightarrow> pystr \<Rightarrow> bool \<Rightarrow> bool \<Rightarrow> bool \<Rightarrow> world \<Rightarrow> (error + info list) \<times> world" where
  "OscProvider_get_users e api_url search_text is_login is_email is_realname w =
     (case get_users_try e api_url search_text is_login is_email is_realname w of
        (Inl err, w') \<Rightarrow> (Inl (reraise (lit ''Failed to get user '') search_text err), w')
      | (Inr users_info, w') \<Rightarrow> (Inr users_info, w'))"

section \<open>providers.py: DataSourcer\<close>

text \<open>The facade hands every call to its provider unchanged.\<close>

definition DataSourcer_list_packages ::
  "env \<Rightarrow> pystr \<Rightarrow> pystr \<Rightarrow> world \<Rightarrow> (error + pystr list) \<times> world" where
  "DataSourcer_list_packages e api_url project w = OscProvider_list_packages e api_url project w"

definition DataSourcer_list_artifacts ::
  "env \<Rightarrow> pystr \<Rightarrow> pystr \<Rightarrow> pystr \<Rightarrow> pystr \<Rightarrow> pystr list \<Rightarrow> pystr list \<Rightarrow> world
     \<Rightarrow> (error + pystr list) \<times> world" where
  "DataSourcer_list_artifacts e api_url project package repo_name invalid_start
       invalid_extensions w =
     OscProvider_list_artifacts e api_url project package repo_name invalid_start
       invalid_extensions w"

definition DataSourcer_get_groups ::
  "env \<Rightarrow> pystr \<Rightarrow> pystr \<Rightarrow> bool \<Rightarrow> world \<Rightarrow> (error + info) \<times> world" where
  "DataSourcer_get_groups e api_url grp is_fulllist w =
     OscProvider_get_groups e api_url grp is_fulllist w"

definition DataSourcer_get_users ::
  "env \<Rightarrow> pystr \<Rightarrow> pystr \<Rightarrow> bool \<Rightarrow> bool \<Rightarrow> bool \<Rightarrow> world \<Rightarrow> (error + info list) \<times> world" where
  "DataSourcer_get_users e api_url search_text is_login is_email is_realname w =
     OscProvider_get_users e api_url search_text is_login is_email is_realname w"

section \<open>users.py: get_groups\<close>

text \<open>
  The wrapper around the facade. \<^verbatim>\<open>not info\<close> is true exactly for a dictionary without
  keys. The decorator \<^verbatim>\<open>running_spinner_decorator\<close> (of \<^verbatim>\<open>relx.utils.tools\<close>, not
  among the sources) is taken to return what the wrapped function returns.
\<close>

definition users_get_groups ::
  "env \<Rightarrow> pystr \<Rightarrow> pystr \<Rightarrow> bool \<Rightarrow> world \<Rightarrow> (error + info) \<times> world" where
  "users_get_groups e api_url grp is_fulllist w =
     (case DataSourcer_get_groups e api_url grp is_fulllist w of
        (Inl err, w') \<Rightarrow> (Inl err, w')
      | (Inr i, w') \<Rightarrow>
          (if dom i = {} then (Inl (RuntimeError (grp @ lit '' not found.'') None), w')
           else (Inr i, w')))"

section \<open>artifacts.py: list_artifacs\<close>

text \<open>
  The regular-expression library is a parameter: \<open>re_compile\<close> is \<^verbatim>\<open>re.compile\<close>, and
  \<open>re_match p s i\<close> says whether the compiled pattern \<open>p\<close> matches in \<open>s\<close> starting at
  index \<open>i\<close> (\<^verbatim>\<open>p.match(s, i)\<close>); \<open>re_compile\<close> gives \<open>None\<close> for a text that is no
  pattern, where \<^verbatim>\<open>re.compile\<close> raises \<^verbatim>\<open>re.error\<close>. \<^verbatim>\<open>re.search\<close> scans the string
  for the first index where the pattern matches, the end of the string included.
\<close>

record 'p re_module =
  re_compile :: "pystr \<Rightarrow> 'p option"
  re_match :: "'p \<Rightarrow> pystr \<Rightarrow> nat \<Rightarrow> bool"

definition re_search :: "'p re_module \<Rightarrow> 'p \<Rightarrow> pystr \<Rightarrow> bool" where
  "re_search re pattern s \<longleftrightarrow> list_ex (re_match re pattern s) [0 ..< Suc (length s)]"

text \<open>\<^verbatim>\<open>for line in ...: print(line)\<close> and \<^verbatim>\<open>progress.update(task_id, advance=1)\<close>.\<close>

fun print_lines :: "pystr list \<Rightarrow> world \<Rightarrow> world" where
  "print_lines [] w = w"
| "print_lines (line # rest) w = print_lines rest (w\<lparr>printed := printed w @ [line]\<rparr>)"

definition advance :: "world \<Rightarrow> world" where
  "advance w = w\<lparr>progress := progress w + 1\<rparr>"

text \<open>The loop over the packages. An exception leaves it at once.\<close>

fun packages_loop ::
  "'p re_module \<Rightarrow> env \<Rightarrow> pystr \<Rightarrow> pystr \<Rightarrow> pystr list \<Rightarrow> pystr list \<Rightarrow> (pystr \<rightharpoonup> pystr) \<Rightarrow> 'p
     \<Rightarrow> pystr list \<Rightarrow> world \<Rightarrow> (error + unit) \<times> world" where
  "packages_loop re e api_url project invalid_start invalid_extensions repo_info pattern [] w =
     (Inr (), w)"
| "packages_loop re e api_url project invalid_start invalid_extensions repo_info pattern
       (package # rest) w =
     (if re_search re pattern package
      then (case repo_info (lit ''name'') of
              None \<Rightarrow> (Inl (KeyError (lit ''name'')), w)
            | Some repo_name \<Rightarrow>
                (case DataSourcer_list_artifacts e api_url project package repo_name
                        invalid_start invalid_extensions w of
                   (Inl err, w') \<Rightarrow> (Inl err, w')
                 | (Inr lines, w') \<Rightarrow>
                     packages_loop re e api_url project invalid_start invalid_extensions
                       repo_info pattern rest (advance (print_lines lines w'))))
      else packages_loop re e api_url project invalid_start invalid_extensions repo_info
             pattern rest (advance w))"

definition list_artifacs ::
  "'p re_module \<Rightarrow> env \<Rightarrow> pystr \<Rightarrow> pystr \<Rightarrow> pystr list \<Rightarrow> pystr list \<Rightarrow> pystr list
     \<Rightarrow> (pystr \<rightharpoonup> pystr) \<Rightarrow> world \<Rightarrow> (error + unit) \<times> world" where
  "list_artifacs re e api_url project packages invalid_start invalid_extensions repo_info w =
     (case repo_info (lit ''pattern'') of
        None \<Rightarrow> (Inl (KeyError (lit ''pattern'')), w)
      | Some pat \<Rightarrow>
          (case re_compile re pat of
             None \<Rightarrow> (Inl ReError, w)
           | Some pattern \<Rightarrow>
               packages_loop re e api_url project invalid_start invalid_extensions repo_info
                 pattern packages w))"

section \<open>A simulated external command\<close>

text \<open>
  The surroundings used in the examples: every command exits with the given code, stdout
  and stderr; \<^verbatim>\<open>shlex.split\<close> is replaced by a function that keeps the command as one
  token; the XML parser returns the given result. \<open>failing_env bad out\<close> is the same
  with a command that exits with code 1 for the argument vector \<open>bad\<close> and with code 0
  and stdout \<open>out\<close> for any other. \<open>world0\<close> is the state before anything has run. \<open>literal_re\<close> is a pattern library in which a pattern is a literal text.
\<close>

definition sim_env :: "int \<Rightarrow> pystr \<Rightarrow> pystr \<Rightarrow> element option \<Rightarrow> env" where
  "sim_env code out serr xml =
     \<lparr>proc = (\<lambda>argv. \<lparr>returncode = code, stdout = out, stderr = serr\<rparr>),
      shlex_split = (\<lambda>command. Some [command]),
      fromstring = (\<lambda>doc. xml)\<rparr>"

definition failing_env :: "pystr list \<Rightarrow> pystr \<Rightarrow> env" where
  "failing_env bad out =
     \<lparr>proc = (\<lambda>argv. if argv = bad
                       then \<lparr>returncode = 1, stdout = [], stderr = lit ''not found''\<rparr>
                       else \<lparr>returncode = 0, stdout = out, stderr = []\<rparr>),
      shlex_split = (\<lambda>command. Some [command]),
      fromstring = (\<lambda>doc. None)\<rparr>"

definition world0 :: world where
  "world0 = \<lparr>calls = [], printed = [], progress = 0\<rparr>"

definition literal_re :: "pystr re_module" where
  "literal_re = \<lparr>re_compile = Some, re_match = (\<lambda>p s i. prefix p (drop i s))\<rparr>"

section \<open>Auxiliary notions for the statements\<close>

text \<open>
  The condition under which the loop of \<^verbatim>\<open>list_artifacts\<close> appends a trimmed line: the
  conjunction of its two nested \<^verbatim>\<open>if\<close> tests.
\<close>

definition kept :: "pystr \<Rightarrow> pystr list \<Rightarrow> pystr list \<Rightarrow> pystr \<Rightarrow> bool" where
  "kept repo_name invalid_start invalid_extensions line \<longleftrightarrow>
     \<not> startswith_any line invalid_start \<and> \<not> startswith line (repo_name @ lit ''/'') \<and>
     \<not> endswith_any line invalid_extensions"

text \<open>
  The line parser as section 4.2 of the specification words it (not taken from the
  code): split on line boundaries, trim every line, drop the empty ones.
\<close>

definition spec_line_parser :: "pystr \<Rightarrow> pystr list" where
  "spec_line_parser out = filter (\<lambda>line. line \<noteq> []) (map strip (splitlines out))"

section \<open>Basic facts\<close>

lemmas str_simps = lit_def strip_def splitlines_def is_space_def is_linebreak_def
  startswith_def endswith_def startswith_any_def endswith_any_def suffix_to_prefix

lemmas sim_simps = sim_env_def world0_def run_command_def artifacts_command_def
  packages_command_def groups_command_def

lemma strip_Nil: "strip [] = []"
  by (simp add: strip_def)

lemma splitlines_Nil: "splitlines [] = []"
  by (simp add: splitlines_def)

section \<open>The artifact filter\<close>

text \<open>The loop is a filter over the trimmed lines, appended to what was collected before.\<close>

lemma artifacts_loop_filter:
  "artifacts_loop repo_name invalid_start invalid_extensions raws acc =
     acc @ filter (kept repo_name invalid_start invalid_extensions) (map strip raws)"
  by (induction raws arbitrary: acc) (simp_all add: Let_def kept_def)

lemma list_artifacts_ok:
  assumes "shlex_split e (artifacts_command api_url project package repo_name) = Some argv"
    and "returncode (proc e argv) = 0"
  shows "OscProvider_list_artifacts e api_url project package repo_name invalid_start
           invalid_extensions w =
         (Inr (filter (kept repo_name invalid_start invalid_extensions)
                 (map strip (splitlines (strip (stdout (proc e argv)))))),
          w\<lparr>calls := calls w @ [argv]\<rparr>)"
  using assms
  by (simp add: OscProvider_list_artifacts_def run_command_def Let_def artifacts_loop_filter
      strip_Nil splitlines_Nil)

lemma list_artifacts_Inr:
  assumes "fst (OscProvider_list_artifacts e api_url project package repo_name invalid_start
           invalid_extensions w) = Inr artifacts"
  shows "\<exists>argv. shlex_split e (artifacts_command api_url project package repo_name) = Some argv \<and>
           returncode (proc e argv) = 0 \<and>
           artifacts = filter (kept repo_name invalid_start invalid_extensions)
                 (map strip (splitlines (strip (stdout (proc e argv)))))"
  using assms
  by (auto simp add: OscProvider_list_artifacts_def run_command_def Let_def artifacts_loop_filter
      strip_Nil splitlines_Nil split: sum.splits option.splits if_splits)

text \<open>
  Claim C4. Whenever \<^verbatim>\<open>list_artifacts\<close> returns a list, no element of it starts with one
  of the invalid prefixes or ends with one of the invalid extensions, whatever the
  repository name and the rest of the line are. The returned elements are the trimmed
  input lines that passed the tests, so a line whose trimmed form starts or ends that way
  is not in the output.
\<close>

theorem list_artifacts_excludes_invalid:
  assumes "fst (OscProvider_list_artifacts e api_url project package repo_name invalid_start
             invalid_extensions w) = Inr artifacts"
    and "startswith_any line invalid_start \<or> endswith_any line invalid_extensions"
  shows "line \<notin> set artifacts"
proof -
  from list_artifacts_Inr [OF assms(1)] obtain argv where
    "artifacts = filter (kept repo_name invalid_start invalid_extensions)
                 (map strip (splitlines (strip (stdout (proc e argv)))))"
    by blast
  with assms(2) show ?thesis
    by (auto simp: kept_def)
qed

text \<open>
  The scenario of section 8: of the lines \<^verbatim>\<open>badinfo.log\<close>, \<^verbatim>\<open>repo/\<close>, \<^verbatim>\<open>app-1.0.rpm\<close>
  and \<^verbatim>\<open>tmp.src.rpm\<close> only \<^verbatim>\<open>app-1.0.rpm\<close> is returned.
\<close>

theorem list_artifacts_excludes_invalid_witness:
  "fst (OscProvider_list_artifacts
          (sim_env 0 (lit ''badinfo.log'' @ [10] @ lit ''repo/'' @ [10] @ lit ''app-1.0.rpm''
                        @ [10] @ lit ''tmp.src.rpm'') [] None)
          (lit ''https://api.example.org'') (lit ''proj'') (lit ''pkg'') (lit ''repo'')
          [lit ''badinfo''] [lit ''.src.rpm''] world0) = Inr [lit ''app-1.0.rpm'']
   \<and> endswith_any (lit ''tmp.src.rpm'') [lit ''.src.rpm'']
   \<and> startswith_any (lit ''badinfo.log'') [lit ''badinfo'']
   \<and> lit ''tmp.src.rpm'' \<notin> set [lit ''app-1.0.rpm'']
   \<and> lit ''badinfo.log'' \<notin> set [lit ''app-1.0.rpm'']"
proof -
  have run: "fst (OscProvider_list_artifacts
          (sim_env 0 (lit ''badinfo.log'' @ [10] @ lit ''repo/'' @ [10] @ lit ''app-1.0.rpm''
                        @ [10] @ lit ''tmp.src.rpm'') [] None)
          (lit ''https://api.example.org'') (lit ''proj'') (lit ''pkg'') (lit ''repo'')
          [lit ''badinfo''] [lit ''.src.rpm''] world0) = Inr [lit ''app-1.0.rpm'']"
    by (simp add: OscProvider_list_artifacts_def sim_simps str_simps)
  have ext: "endswith_any (lit ''tmp.src.rpm'') [lit ''.src.rpm'']"
    by (simp add: str_simps)
  have pre: "startswith_any (lit ''badinfo.log'') [lit ''badinfo'']"
    by (simp add: str_simps)
  show ?thesis
    by (intro conjI run ext pre
        list_artifacts_excludes_invalid [OF run disjI2 [OF ext]]
        list_artifacts_excludes_invalid [OF run disjI1 [OF pre]])
qed

text \<open>
  Claim C5. When the command succeeds, \<^verbatim>\<open>list_artifacts\<close> returns a subsequence of the
  sequence of trimmed input lines: lines are only left out, never reordered or
  duplicated, so two retained lines stand in the output in the order they had in the
  input.
\<close>

theorem list_artifacts_subsequence:
  assumes "shlex_split e (artifacts_command api_url project package repo_name) = Some argv"
    and "returncode (proc e argv) = 0"
  shows "\<exists>artifacts.
           fst (OscProvider_list_artifacts e api_url project package repo_name invalid_start
                  invalid_extensions w) = Inr artifacts \<and>
           subseq artifacts (map strip (splitlines (strip (stdout (proc e argv)))))"
  by (simp add: list_artifacts_ok [OF assms])

theorem list_artifacts_subsequence_witness:
  "\<exists>artifacts.
     fst (OscProvider_list_artifacts
            (sim_env 0 (lit ''b.rpm'' @ [10] @ lit ''x.log'' @ [10] @ lit ''a.rpm'') []
               None)
            (lit ''https://api.example.org'') (lit ''proj'') (lit ''pkg'') (lit ''repo'')
            [lit ''badinfo''] [lit ''.log''] world0) = Inr artifacts \<and>
     subseq artifacts [lit ''b.rpm'', lit ''x.log'', lit ''a.rpm'']"
proof -
  let ?e = "sim_env 0 (lit ''b.rpm'' @ [10] @ lit ''x.log'' @ [10] @ lit ''a.rpm'') []
               None"
  let ?c = "artifacts_command (lit ''https://api.example.org'') (lit ''proj'') (lit ''pkg'')
              (lit ''repo'')"
  have split: "shlex_split ?e ?c = Some [?c]"
    by (simp add: sim_env_def)
  have ok: "returncode (proc ?e [?c]) = 0"
    by (simp add: sim_env_def)
  have lines: "map strip (splitlines (strip (stdout (proc ?e [?c])))) =
                 [lit ''b.rpm'', lit ''x.log'', lit ''a.rpm'']"
    by (simp add: sim_env_def str_simps)
  from list_artifacts_subsequence [OF split ok, of "[lit ''badinfo'']" "[lit ''.log'']" world0]
  show ?thesis
    unfolding lines .
qed

text \<open>
  Claim C1, as amended. When the command succeeds, a trimmed input line that starts
  with no invalid prefix and ends with no invalid extension is left out if and only if
  it starts with \<^verbatim>\<open>repo_name + "/"\<close>. The test of the code is
  \<^verbatim>\<open>line.startswith(f"{repo_name}/")\<close>, not an equality.
\<close>

theorem list_artifacts_repo_marker:
  assumes "shlex_split e (artifacts_command api_url project package repo_name) = Some argv"
    and "returncode (proc e argv) = 0"
    and "raw \<in> set (splitlines (strip (stdout (proc e argv))))"
    and "\<not> startswith_any (strip raw) invalid_start"
    and "\<not> endswith_any (strip raw) invalid_extensions"
  shows "\<exists>artifacts.
           fst (OscProvider_list_artifacts e api_url project package repo_name invalid_start
                  invalid_extensions w) = Inr artifacts \<and>
           (strip raw \<notin> set artifacts \<longleftrightarrow> startswith (strip raw) (repo_name @ lit ''/''))"
  using assms(3-5)
  by (auto simp add: list_artifacts_ok [OF assms(1,2)] kept_def)

theorem list_artifacts_repo_marker_witness:
  "\<exists>artifacts.
     fst (OscProvider_list_artifacts
            (sim_env 0 (lit ''repo/foo.rpm'' @ [10] @ lit ''app-1.0.rpm'') []
               None)
            (lit ''https://api.example.org'') (lit ''proj'') (lit ''pkg'') (lit ''repo'')
            [lit ''badinfo''] [lit ''.src.rpm''] world0) = Inr artifacts \<and>
     (strip (lit ''repo/foo.rpm'') \<notin> set artifacts \<longleftrightarrow>
        startswith (strip (lit ''repo/foo.rpm'')) (lit ''repo'' @ lit ''/''))"
proof -
  let ?e = "sim_env 0 (lit ''repo/foo.rpm'' @ [10] @ lit ''app-1.0.rpm'') []
               None"
  let ?c = "artifacts_command (lit ''https://api.example.org'') (lit ''proj'') (lit ''pkg'')
              (lit ''repo'')"
  have split: "shlex_split ?e ?c = Some [?c]"
    by (simp add: sim_env_def)
  have ok: "returncode (proc ?e [?c]) = 0"
    by (simp add: sim_env_def)
  have raw: "lit ''repo/foo.rpm'' \<in> set (splitlines (strip (stdout (proc ?e [?c]))))"
    by (simp add: sim_env_def str_simps)
  have pre: "\<not> startswith_any (strip (lit ''repo/foo.rpm'')) [lit ''badinfo'']"
    by (simp add: str_simps)
  have ext: "\<not> endswith_any (strip (lit ''repo/foo.rpm'')) [lit ''.src.rpm'']"
    by (simp add: str_simps)
  show ?thesis
    by (rule list_artifacts_repo_marker [OF split ok raw pre ext])
qed

text \<open>
  The claim as stated fails: the line \<^verbatim>\<open>repo/foo.rpm\<close> starts with no invalid prefix,
  ends with no invalid extension and is not the string \<^verbatim>\<open>repo/\<close>, and it is left out.
\<close>

theorem list_artifacts_repo_marker_counterexample:
  "\<not> startswith_any (lit ''repo/foo.rpm'') [lit ''badinfo'']
   \<and> \<not> endswith_any (lit ''repo/foo.rpm'') [lit ''.src.rpm'']
   \<and> lit ''repo/foo.rpm'' \<noteq> lit ''repo'' @ lit ''/''
   \<and> fst (OscProvider_list_artifacts
            (sim_env 0 (lit ''repo/foo.rpm'' @ [10] @ lit ''app-1.0.rpm'') []
               None)
            (lit ''https://api.example.org'') (lit ''proj'') (lit ''pkg'') (lit ''repo'')
            [lit ''badinfo''] [lit ''.src.rpm''] world0) = Inr [lit ''app-1.0.rpm'']"
  by (simp add: OscProvider_list_artifacts_def sim_simps str_simps)

text \<open>
  Claim C6, as amended. When the command succeeds: an empty stdout gives the empty
  list; and when no trimmed input line starts with an invalid prefix, starts with
  \<^verbatim>\<open>repo_name + "/"\<close> or ends with an invalid extension, the output is the sequence of
  trimmed input lines, in order and complete.
\<close>

theorem list_artifacts_identity:
  assumes "shlex_split e (artifacts_command api_url project package repo_name) = Some argv"
    and "returncode (proc e argv) = 0"
  shows "\<exists>artifacts.
           fst (OscProvider_list_artifacts e api_url project package repo_name invalid_start
                  invalid_extensions w) = Inr artifacts \<and>
           (stdout (proc e argv) = [] \<longrightarrow> artifacts = []) \<and>
           ((\<forall>raw \<in> set (splitlines (strip (stdout (proc e argv)))).
               \<not> startswith_any (strip raw) invalid_start \<and>
               \<not> startswith (strip raw) (repo_name @ lit ''/'') \<and>
               \<not> endswith_any (strip raw) invalid_extensions)
            \<longrightarrow> artifacts = map strip (splitlines (strip (stdout (proc e argv)))))"
  by (auto simp add: list_artifacts_ok [OF assms] kept_def strip_Nil splitlines_Nil
      filter_id_conv)

theorem list_artifacts_identity_witness:
  "fst (OscProvider_list_artifacts
          (sim_env 0 (lit ''app-1.0.rpm'' @ [10] @ lit ''lib-2.1.rpm'') [] None)
          (lit ''https://api.example.org'') (lit ''proj'') (lit ''pkg'') (lit ''repo'')
          [lit ''badinfo''] [lit ''.src.rpm''] world0)
     = Inr [lit ''app-1.0.rpm'', lit ''lib-2.1.rpm'']
   \<and> fst (OscProvider_list_artifacts (sim_env 0 [] [] None)
          (lit ''https://api.example.org'') (lit ''proj'') (lit ''pkg'') (lit ''repo'')
          [lit ''badinfo''] [lit ''.src.rpm''] world0) = Inr []"
proof -
  let ?e = "sim_env 0 (lit ''app-1.0.rpm'' @ [10] @ lit ''lib-2.1.rpm'') []
              None"
  let ?f = "sim_env 0 [] [] None"
  let ?c = "artifacts_command (lit ''https://api.example.org'') (lit ''proj'') (lit ''pkg'')
              (lit ''repo'')"
  have split: "shlex_split ?e ?c = Some [?c]" and split0: "shlex_split ?f ?c = Some [?c]"
    by (simp_all add: sim_env_def)
  have ok: "returncode (proc ?e [?c]) = 0" and ok0: "returncode (proc ?f [?c]) = 0"
    by (simp_all add: sim_env_def)
  have lines: "splitlines (strip (stdout (proc ?e [?c]))) =
                 [lit ''app-1.0.rpm'', lit ''lib-2.1.rpm'']"
    by (simp add: sim_env_def str_simps)
  have valid: "\<forall>raw \<in> set (splitlines (strip (stdout (proc ?e [?c])))).
               \<not> startswith_any (strip raw) [lit ''badinfo''] \<and>
               \<not> startswith (strip raw) (lit ''repo'' @ lit ''/'') \<and>
               \<not> endswith_any (strip raw) [lit ''.src.rpm'']"
    unfolding lines by (simp add: str_simps)
  have trimmed: "map strip (splitlines (strip (stdout (proc ?e [?c])))) =
                   [lit ''app-1.0.rpm'', lit ''lib-2.1.rpm'']"
    unfolding lines by (simp add: str_simps)
  have empty: "stdout (proc ?f [?c]) = []"
    by (simp add: sim_env_def)
  from list_artifacts_identity [OF split ok, of "[lit ''badinfo'']" "[lit ''.src.rpm'']" world0]
    valid trimmed
  have first: "fst (OscProvider_list_artifacts ?e (lit ''https://api.example.org'')
                 (lit ''proj'') (lit ''pkg'') (lit ''repo'') [lit ''badinfo'']
                 [lit ''.src.rpm''] world0) = Inr [lit ''app-1.0.rpm'', lit ''lib-2.1.rpm'']"
    by metis
  from list_artifacts_identity [OF split0 ok0, of "[lit ''badinfo'']" "[lit ''.src.rpm'']"
      world0] empty
  have second: "fst (OscProvider_list_artifacts ?f (lit ''https://api.example.org'')
                 (lit ''proj'') (lit ''pkg'') (lit ''repo'') [lit ''badinfo'']
                 [lit ''.src.rpm''] world0) = Inr []"
    by metis
  from first second show ?thesis ..
qed

text \<open>
  The claim as stated fails: in the input whose only line is \<^verbatim>\<open>repo/x86_64\<close> no line
  starts with an invalid prefix, equals \<^verbatim>\<open>repo/\<close> or ends with an invalid extension,
  and the output is empty, not the input.
\<close>

theorem list_artifacts_identity_counterexample:
  "map strip (splitlines (strip (lit ''repo/x86_64''))) = [lit ''repo/x86_64'']
   \<and> \<not> startswith_any (lit ''repo/x86_64'') [lit ''badinfo'']
   \<and> lit ''repo/x86_64'' \<noteq> lit ''repo'' @ lit ''/''
   \<and> \<not> endswith_any (lit ''repo/x86_64'') [lit ''.src.rpm'']
   \<and> fst (OscProvider_list_artifacts
            (sim_env 0 (lit ''repo/x86_64'') [] None)
            (lit ''https://api.example.org'') (lit ''proj'') (lit ''pkg'') (lit ''repo'')
            [lit ''badinfo''] [lit ''.src.rpm''] world0) = Inr []"
  by (simp add: OscProvider_list_artifacts_def sim_simps str_simps)

section \<open>The user and group lookups\<close>

lemma reraise_simps:
  "reraise what name (CalledProcessError cmd code serr) =
     RuntimeError (what @ [39] @ name @ [39] @ lit '': '' @ strip serr)
       (Some (CalledProcessError cmd code serr))"
  "reraise what name (RuntimeError msg cause) = RuntimeError msg cause"
  "reraise what name ValueError = ValueError"
  "reraise what name XMLSyntaxError = XMLSyntaxError"
  "reraise what name AttributeError = AttributeError"
  by (simp_all add: reraise_def)

lemma user_info_error: "user_info person = Inl err \<Longrightarrow> err = AttributeError"
  by (auto simp: user_info_def child_text_def split: sum.splits option.splits)

lemma users_loop_error: "users_loop people acc = Inl err \<Longrightarrow> err = AttributeError"
  by (induction people arbitrary: acc) (auto split: sum.splits dest: user_info_error)

lemma users_command_None:
  "users_command api_url search_text is_login is_email is_realname = None \<longleftrightarrow>
     \<not> is_login \<and> \<not> is_email \<and> \<not> is_realname"
  by (simp add: users_command_def)

lemma get_users_try_invalid:
  assumes "fst (get_users_try e api_url search_text is_login is_email is_realname w) =
     Inl (RuntimeError msg cause)"
  shows "\<not> is_login \<and> \<not> is_email \<and> \<not> is_realname"
proof (cases "users_command api_url search_text is_login is_email is_realname")
  case None
  then show ?thesis
    by (simp add: users_command_None)
next
  case (Some command)
  with assms have False
    by (auto simp: get_users_try_def run_command_def Let_def
        split: option.splits sum.splits if_splits dest: users_loop_error)
  then show ?thesis ..
qed

lemma get_users_invalid_iff:
  "fst (OscProvider_get_users e api_url search_text is_login is_email is_realname w) =
     Inl (RuntimeError (lit ''Invalid user search.'') None) \<longleftrightarrow>
   \<not> is_login \<and> \<not> is_email \<and> \<not> is_realname"
proof
  assume a: "fst (OscProvider_get_users e api_url search_text is_login is_email is_realname w) =
     Inl (RuntimeError (lit ''Invalid user search.'') None)"
  obtain r w' where r: "get_users_try e api_url search_text is_login is_email is_realname w = (r, w')"
    by (cases "get_users_try e api_url search_text is_login is_email is_realname w")
  with a obtain err where err: "r = Inl err"
      "reraise (lit ''Failed to get user '') search_text err =
         RuntimeError (lit ''Invalid user search.'') None"
    by (auto simp: OscProvider_get_users_def split: sum.splits)
  from err(2) have "err = RuntimeError (lit ''Invalid user search.'') None"
    by (cases err) (simp_all add: reraise_def)
  with r err(1) show "\<not> is_login \<and> \<not> is_email \<and> \<not> is_realname"
    using get_users_try_invalid [of e api_url search_text is_login is_email is_realname w]
    by simp
next
  assume "\<not> is_login \<and> \<not> is_email \<and> \<not> is_realname"
  then show "fst (OscProvider_get_users e api_url search_text is_login is_email is_realname w) =
     Inl (RuntimeError (lit ''Invalid user search.'') None)"
    by (simp add: OscProvider_get_users_def get_users_try_def users_command_def reraise_def)
qed

lemma get_users_calls:
  assumes "users_command api_url search_text is_login is_email is_realname = Some command"
    and "shlex_split e command = Some argv"
  shows "calls (snd (OscProvider_get_users e api_url search_text is_login is_email is_realname w))
           = calls w @ [argv]"
  using assms
  by (auto simp: OscProvider_get_users_def get_users_try_def run_command_def Let_def
      split: option.splits sum.splits)

text \<open>
  Claim C10. In \<^verbatim>\<open>get_users\<close> the flags are tested in the order login, email,
  realname. A call with \<^verbatim>\<open>is_login\<close> set behaves as the call with only that flag
  set, whatever the other two are, and the command it runs is the login query; a call
  without \<^verbatim>\<open>is_login\<close> and with \<^verbatim>\<open>is_email\<close> set behaves as the call with only
  \<^verbatim>\<open>is_email\<close> set and runs the email query. The error \<^verbatim>\<open>Invalid user search.\<close> is
  the result exactly when all three flags are false.
\<close>

theorem get_users_precedence:
  "(is_login \<longrightarrow>
      OscProvider_get_users e api_url search_text is_login is_email is_realname w =
        OscProvider_get_users e api_url search_text True False False w \<and>
      users_command api_url search_text is_login is_email is_realname =
        Some (lit ''osc -A '' @ api_url @ lit '' api '' @ [39]
              @ lit ''/search/person?match=@login='' @ [34] @ search_text @ [34] @ [39])) \<and>
   (\<not> is_login \<and> is_email \<longrightarrow>
      OscProvider_get_users e api_url search_text is_login is_email is_realname w =
        OscProvider_get_users e api_url search_text False True False w \<and>
      users_command api_url search_text is_login is_email is_realname =
        Some (lit ''osc -A '' @ api_url @ lit '' api '' @ [39]
              @ lit ''/search/person?match=@email='' @ [34] @ search_text @ [34] @ [39])) \<and>
   (\<not> is_login \<and> \<not> is_email \<and> is_realname \<longrightarrow>
      users_command api_url search_text is_login is_email is_realname =
        Some (lit ''osc -A '' @ api_url @ lit '' api '' @ [39]
              @ lit ''/search/person?match=contains(@realname,'' @ [34] @ search_text
              @ [34] @ lit '')'' @ [39])) \<and>
   (fst (OscProvider_get_users e api_url search_text is_login is_email is_realname w) =
      Inl (RuntimeError (lit ''Invalid user search.'') None)
    \<longleftrightarrow> \<not> is_login \<and> \<not> is_email \<and> \<not> is_realname)"
proof (intro conjI impI)
  show "fst (OscProvider_get_users e api_url search_text is_login is_email is_realname w) =
      Inl (RuntimeError (lit ''Invalid user search.'') None)
    \<longleftrightarrow> \<not> is_login \<and> \<not> is_email \<and> \<not> is_realname"
    by (rule get_users_invalid_iff)
qed (simp_all add: OscProvider_get_users_def get_users_try_def users_command_def)

text \<open>
  With all three flags set, on a server that answers with an empty collection, the
  login query is the one command that runs and the result is the empty list, no error.
\<close>

theorem get_users_precedence_witness:
  "OscProvider_get_users (sim_env 0 (lit ''<collection/>'') [] (Some (Element (lit ''collection'') [] None [])))
     (lit ''https://api.example.org'') (lit ''bob'') True True True world0 =
   (Inr [], world0\<lparr>calls := [[lit ''osc -A https://api.example.org api ''
           @ [39] @ lit ''/search/person?match=@login='' @ [34] @ lit ''bob'' @ [34] @ [39]]]\<rparr>)
   \<and> fst (OscProvider_get_users (sim_env 0 (lit ''<collection/>'') [] (Some (Element (lit ''collection'') [] None [])))
     (lit ''https://api.example.org'') (lit ''bob'') False False False world0) =
      Inl (RuntimeError (lit ''Invalid user search.'') None)"
proof -
  let ?e = "sim_env 0 (lit ''<collection/>'') [] (Some (Element (lit ''collection'') [] None []))"
  let ?u = "lit ''https://api.example.org''"
  note thm1 = get_users_precedence [of True ?e ?u "lit ''bob''" True True world0]
  note thm2 = get_users_precedence [of False ?e ?u "lit ''bob''" False False world0]
  have "OscProvider_get_users ?e ?u (lit ''bob'') True True True world0 =
          OscProvider_get_users ?e ?u (lit ''bob'') True False False world0"
    using thm1 by simp
  moreover have "OscProvider_get_users ?e ?u (lit ''bob'') True False False world0 =
     (Inr [], world0\<lparr>calls := [[lit ''osc -A https://api.example.org api ''
           @ [39] @ lit ''/search/person?match=@login='' @ [34] @ lit ''bob'' @ [34] @ [39]]]\<rparr>)"
    by (simp add: OscProvider_get_users_def get_users_try_def users_command_def sim_simps
        findall_def lit_def)
  moreover have "fst (OscProvider_get_users ?e ?u (lit ''bob'') False False False world0) =
      Inl (RuntimeError (lit ''Invalid user search.'') None)"
    using thm2 by simp
  ultimately show ?thesis
    by simp
qed

text \<open>
  Claim C2, as amended. \<^verbatim>\<open>get_users\<close> fails with
  \<^verbatim>\<open>RuntimeError("Invalid user search.")\<close> if and only if none of the three modes is
  selected, and then it runs no command. With several modes selected it does not fail
  for that reason: it behaves as the call in which only the first selected mode, in the
  order login, email, realname, is set. A command is run only when at least one mode is
  selected. With a mode selected, the command text is the query of that first mode; when
  \<^verbatim>\<open>shlex.split\<close> rejects the text the call raises \<^verbatim>\<open>ValueError\<close> and runs nothing,
  and otherwise it runs exactly the one command \<^verbatim>\<open>shlex.split\<close> returns.
\<close>

theorem get_users_mode_check:
  "(fst (OscProvider_get_users e api_url search_text is_login is_email is_realname w) =
      Inl (RuntimeError (lit ''Invalid user search.'') None)
    \<longleftrightarrow> \<not> is_login \<and> \<not> is_email \<and> \<not> is_realname) \<and>
   (\<not> is_login \<and> \<not> is_email \<and> \<not> is_realname \<longrightarrow>
      snd (OscProvider_get_users e api_url search_text is_login is_email is_realname w) = w) \<and>
   (is_login \<longrightarrow>
      OscProvider_get_users e api_url search_text is_login is_email is_realname w =
        OscProvider_get_users e api_url search_text True False False w) \<and>
   (\<not> is_login \<and> is_email \<longrightarrow>
      OscProvider_get_users e api_url search_text is_login is_email is_realname w =
        OscProvider_get_users e api_url search_text False True False w) \<and>
   (calls (snd (OscProvider_get_users e api_url search_text is_login is_email is_realname w))
      \<noteq> calls w \<longrightarrow> is_login \<or> is_email \<or> is_realname) \<and>
   (is_login \<or> is_email \<or> is_realname \<longrightarrow>
      (shlex_split e
         (if is_login
          then lit ''osc -A '' @ api_url @ lit '' api '' @ [39]
               @ lit ''/search/person?match=@login='' @ [34] @ search_text @ [34] @ [39]
          else if is_email
          then lit ''osc -A '' @ api_url @ lit '' api '' @ [39]
               @ lit ''/search/person?match=@email='' @ [34] @ search_text @ [34] @ [39]
          else lit ''osc -A '' @ api_url @ lit '' api '' @ [39]
               @ lit ''/search/person?match=contains(@realname,'' @ [34] @ search_text
               @ [34] @ lit '')'' @ [39]) = None \<longrightarrow>
         OscProvider_get_users e api_url search_text is_login is_email is_realname w =
           (Inl ValueError, w)) \<and>
      (\<forall>argv.
         shlex_split e
           (if is_login
            then lit ''osc -A '' @ api_url @ lit '' api '' @ [39]
                 @ lit ''/search/person?match=@login='' @ [34] @ search_text @ [34] @ [39]
            else if is_email
            then lit ''osc -A '' @ api_url @ lit '' api '' @ [39]
                 @ lit ''/search/person?match=@email='' @ [34] @ search_text @ [34] @ [39]
            else lit ''osc -A '' @ api_url @ lit '' api '' @ [39]
                 @ lit ''/search/person?match=contains(@realname,'' @ [34] @ search_text
                 @ [34] @ lit '')'' @ [39]) = Some argv \<longrightarrow>
         calls (snd (OscProvider_get_users e api_url search_text is_login is_email
                       is_realname w)) = calls w @ [argv]))"
proof -
  let ?c = "if is_login
          then lit ''osc -A '' @ api_url @ lit '' api '' @ [39]
               @ lit ''/search/person?match=@login='' @ [34] @ search_text @ [34] @ [39]
          else if is_email
          then lit ''osc -A '' @ api_url @ lit '' api '' @ [39]
               @ lit ''/search/person?match=@email='' @ [34] @ search_text @ [34] @ [39]
          else lit ''osc -A '' @ api_url @ lit '' api '' @ [39]
               @ lit ''/search/person?match=contains(@realname,'' @ [34] @ search_text
               @ [34] @ lit '')'' @ [39]"
  let ?run = "OscProvider_get_users e api_url search_text is_login is_email is_realname w"
  have none: "?run = (Inl (RuntimeError (lit ''Invalid user search.'') None), w)"
    if "\<not> is_login \<and> \<not> is_email \<and> \<not> is_realname"
    using that
    by (simp add: OscProvider_get_users_def get_users_try_def users_command_def reraise_def)
  have cmd: "users_command api_url search_text is_login is_email is_realname = Some ?c"
    if "is_login \<or> is_email \<or> is_realname"
    using that by (auto simp: users_command_def)
  have rejected: "?run = (Inl ValueError, w)"
    if "is_login \<or> is_email \<or> is_realname" and "shlex_split e ?c = None"
    using cmd [OF that(1)] that(2)
    by (simp add: OscProvider_get_users_def get_users_try_def reraise_simps)
  have runs: "calls (snd ?run) = calls w @ [argv]"
    if "is_login \<or> is_email \<or> is_realname" and "shlex_split e ?c = Some argv" for argv
    using get_users_calls [OF cmd [OF that(1)] that(2)] .
  have unchanged: "is_login \<or> is_email \<or> is_realname" if "calls (snd ?run) \<noteq> calls w"
  proof (rule ccontr)
    assume "\<not> (is_login \<or> is_email \<or> is_realname)"
    then have "snd ?run = w"
      using none by simp
    with that show False
      by simp
  qed
  have login: "?run = OscProvider_get_users e api_url search_text True False False w"
    if is_login
    using that by (simp add: OscProvider_get_users_def get_users_try_def users_command_def)
  have email: "?run = OscProvider_get_users e api_url search_text False True False w"
    if "\<not> is_login \<and> is_email"
    using that by (simp add: OscProvider_get_users_def get_users_try_def users_command_def)
  show ?thesis
  proof (intro conjI impI allI)
    show "fst ?run = Inl (RuntimeError (lit ''Invalid user search.'') None)
      \<longleftrightarrow> \<not> is_login \<and> \<not> is_email \<and> \<not> is_realname"
      by (rule get_users_invalid_iff)
  next
    assume "\<not> is_login \<and> \<not> is_email \<and> \<not> is_realname"
    from none [OF this] show "snd ?run = w"
      by simp
  next
    assume is_login
    then show "?run = OscProvider_get_users e api_url search_text True False False w"
      by (rule login)
  next
    assume "\<not> is_login \<and> is_email"
    then show "?run = OscProvider_get_users e api_url search_text False True False w"
      by (rule email)
  next
    assume "calls (snd ?run) \<noteq> calls w"
    then show "is_login \<or> is_email \<or> is_realname"
      by (rule unchanged)
  next
    assume "is_login \<or> is_email \<or> is_realname" and "shlex_split e ?c = None"
    then show "?run = (Inl ValueError, w)"
      by (rule rejected)
  next
    fix argv
    assume "is_login \<or> is_email \<or> is_realname" and "shlex_split e ?c = Some argv"
    then show "calls (snd ?run) = calls w @ [argv]"
      by (rule runs)
  qed
qed

text \<open>
  With no mode the call fails and spawns nothing. With the email and the realname mode
  both selected it runs the email query, as with the email mode alone. With the login
  mode and a search text that \<^verbatim>\<open>shlex.split\<close> rejects, it raises \<^verbatim>\<open>ValueError\<close>
  and spawns nothing.
\<close>

theorem get_users_mode_check_witness:
  "OscProvider_get_users
     (sim_env 0 (lit ''<collection/>'') [] (Some (Element (lit ''collection'') [] None [])))
     (lit ''https://api.example.org'') (lit ''bob'') False False False world0 =
     (Inl (RuntimeError (lit ''Invalid user search.'') None), world0)
   \<and> calls (snd (OscProvider_get_users
        (sim_env 0 (lit ''<collection/>'') [] (Some (Element (lit ''collection'') [] None [])))
        (lit ''https://api.example.org'') (lit ''bob'') False True True world0)) =
     [[lit ''osc -A https://api.example.org api '' @ [39] @ lit ''/search/person?match=@email=''
         @ [34] @ lit ''bob'' @ [34] @ [39]]]
   \<and> OscProvider_get_users
        (sim_env 0 (lit ''<collection/>'') [] (Some (Element (lit ''collection'') [] None [])))
        (lit ''https://api.example.org'') (lit ''bob'') False True True world0 =
      OscProvider_get_users
        (sim_env 0 (lit ''<collection/>'') [] (Some (Element (lit ''collection'') [] None [])))
        (lit ''https://api.example.org'') (lit ''bob'') False True False world0
   \<and> OscProvider_get_users
        \<lparr>proc = (\<lambda>argv. \<lparr>returncode = 0, stdout = lit ''<collection/>'', stderr = []\<rparr>),
         shlex_split = (\<lambda>command. if 39 \<in> set command then None else Some [command]),
         fromstring = (\<lambda>doc. Some (Element (lit ''collection'') [] None []))\<rparr>
        (lit ''https://api.example.org'') (lit ''bob'') True False False world0 =
      (Inl ValueError, world0)"
proof -
  let ?e = "sim_env 0 (lit ''<collection/>'') [] (Some (Element (lit ''collection'') [] None []))"
  let ?q = "\<lparr>proc = (\<lambda>argv. \<lparr>returncode = 0, stdout = lit ''<collection/>'', stderr = []\<rparr>),
         shlex_split = (\<lambda>command. if 39 \<in> set command then None else Some [command]),
         fromstring = (\<lambda>doc. Some (Element (lit ''collection'') [] None []))\<rparr>"
  let ?u = "lit ''https://api.example.org''"
  let ?c = "lit ''osc -A https://api.example.org api '' @ [39] @ lit ''/search/person?match=@email=''
         @ [34] @ lit ''bob'' @ [34] @ [39]"
  let ?em = "lit ''osc -A '' @ ?u @ lit '' api '' @ [39]
               @ lit ''/search/person?match=@email='' @ [34] @ lit ''bob'' @ [34] @ [39]"
  let ?lo = "lit ''osc -A '' @ ?u @ lit '' api '' @ [39]
               @ lit ''/search/person?match=@login='' @ [34] @ lit ''bob'' @ [34] @ [39]"
  note thm1 = get_users_mode_check [where e = ?e and api_url = ?u and search_text = "lit ''bob''"
      and is_login = False and is_email = False and is_realname = False and w = world0]
  note thm2 = get_users_mode_check [where e = ?e and api_url = ?u and search_text = "lit ''bob''"
      and is_login = False and is_email = True and is_realname = True and w = world0]
  note thm3 = get_users_mode_check [where e = ?q and api_url = ?u and search_text = "lit ''bob''"
      and is_login = True and is_email = False and is_realname = False and w = world0]
  let ?em = "lit ''osc -A '' @ ?u @ lit '' api '' @ [39]
               @ lit ''/search/person?match=@email='' @ [34] @ lit ''bob'' @ [34] @ [39]"
  let ?lo = "lit ''osc -A '' @ ?u @ lit '' api '' @ [39]
               @ lit ''/search/person?match=@login='' @ [34] @ lit ''bob'' @ [34] @ [39]"
  have none: "\<not> False \<and> \<not> False \<and> \<not> False"
    by simp
  have some2: "False \<or> True \<or> True" and some3: "True \<or> False \<or> False"
    and email2: "\<not> False \<and> True"
    by simp_all
  note invalid = thm1 [THEN conjunct1, THEN iffD2, OF none]
  note no_call = thm1 [THEN conjunct2, THEN conjunct1, THEN mp, OF none]
  have first: "OscProvider_get_users ?e ?u (lit ''bob'') False False False world0 =
     (Inl (RuntimeError (lit ''Invalid user search.'') None), world0)"
  proof (rule prod_eqI)
    show "fst (OscProvider_get_users ?e ?u (lit ''bob'') False False False world0) =
          fst (Inl (RuntimeError (lit ''Invalid user search.'') None) :: error + info list, world0)"
      using invalid by (simp only: fst_conv)
    show "snd (OscProvider_get_users ?e ?u (lit ''bob'') False False False world0) =
          snd (Inl (RuntimeError (lit ''Invalid user search.'') None) :: error + info list, world0)"
      using no_call by (simp only: snd_conv)
  qed
  have split: "shlex_split ?e ?em = Some [?em]"
    by (simp add: sim_env_def)
  note runs = thm2 [unfolded if_False if_True, THEN conjunct2, THEN conjunct2, THEN conjunct2,
      THEN conjunct2, THEN conjunct2, THEN mp, OF some2, THEN conjunct2, THEN spec, THEN mp,
      OF split]
  have "calls world0 @ [[?em]] = [[?c]]"
    by (simp add: world0_def lit_def)
  with runs
  have second: "calls (snd (OscProvider_get_users ?e ?u (lit ''bob'') False True True world0)) =
          [[?c]]"
    by (rule trans)
  note third = thm2 [THEN conjunct2, THEN conjunct2, THEN conjunct2, THEN conjunct1, THEN mp,
      OF email2]
  have reject: "shlex_split ?q ?lo = None"
    by simp
  note fourth = thm3 [unfolded if_False if_True, THEN conjunct2, THEN conjunct2,
      THEN conjunct2, THEN conjunct2, THEN conjunct2, THEN mp, OF some3, THEN conjunct1,
      THEN mp, OF reject]
  show ?thesis
    by (intro conjI first second third fourth)
qed

text \<open>
  The claim as stated fails: with the login and the email mode both selected the call
  does not fail. It runs the login query and returns the (here empty) list of users.
\<close>

theorem get_users_mode_check_counterexample:
  "OscProvider_get_users (sim_env 0 (lit ''<collection/>'') [] (Some (Element (lit ''collection'') [] None [])))
     (lit ''https://api.example.org'') (lit ''bob'') True True False world0 =
   (Inr [], world0\<lparr>calls := [[lit ''osc -A https://api.example.org api ''
           @ [39] @ lit ''/search/person?match=@login='' @ [34] @ lit ''bob'' @ [34] @ [39]]]\<rparr>)"
  by (simp add: OscProvider_get_users_def get_users_try_def users_command_def sim_simps
      findall_def lit_def)

text \<open>
  Claim C7. When the process exits with a non-zero code, every operation of the
  provider fails, and the failure reaches the caller:
  \<^verbatim>\<open>list_packages\<close> and \<^verbatim>\<open>list_artifacts\<close> with the \<^verbatim>\<open>CalledProcessError\<close> itself,
  which holds the command, the exit code and the captured stderr;
  \<^verbatim>\<open>get_groups\<close> and \<^verbatim>\<open>get_users\<close> with a \<^verbatim>\<open>RuntimeError\<close> whose message ends
  with the trimmed stderr and whose cause is that \<^verbatim>\<open>CalledProcessError\<close>.
  In each case exactly one process has been spawned: the command is not run again.
\<close>

theorem nonzero_exit_is_raised:
  assumes "returncode (proc e argv) \<noteq> 0"
  shows "(shlex_split e (groups_command api_url grp) = Some argv \<longrightarrow>
            OscProvider_get_groups e api_url grp is_fulllist w =
              (Inl (RuntimeError
                      (lit ''Failed to get group '' @ [39] @ grp @ [39] @ lit '': ''
                         @ strip (stderr (proc e argv)))
                      (Some (CalledProcessError argv (returncode (proc e argv))
                               (stderr (proc e argv))))),
               w\<lparr>calls := calls w @ [argv]\<rparr>)) \<and>
         (users_command api_url search_text is_login is_email is_realname = Some command \<and>
          shlex_split e command = Some argv \<longrightarrow>
            OscProvider_get_users e api_url search_text is_login is_email is_realname w =
              (Inl (RuntimeError
                      (lit ''Failed to get user '' @ [39] @ search_text @ [39] @ lit '': ''
                         @ strip (stderr (proc e argv)))
                      (Some (CalledProcessError argv (returncode (proc e argv))
                               (stderr (proc e argv))))),
               w\<lparr>calls := calls w @ [argv]\<rparr>)) \<and>
         (shlex_split e (packages_command api_url project) = Some argv \<longrightarrow>
            OscProvider_list_packages e api_url project w =
              (Inl (CalledProcessError argv (returncode (proc e argv)) (stderr (proc e argv))),
               w\<lparr>calls := calls w @ [argv]\<rparr>)) \<and>
         (shlex_split e (artifacts_command api_url project package repo_name) = Some argv \<longrightarrow>
            OscProvider_list_artifacts e api_url project package repo_name invalid_start
                invalid_extensions w =
              (Inl (CalledProcessError argv (returncode (proc e argv)) (stderr (proc e argv))),
               w\<lparr>calls := calls w @ [argv]\<rparr>))"
proof (intro conjI impI)
  assume "shlex_split e (groups_command api_url grp) = Some argv"
  with assms show "OscProvider_get_groups e api_url grp is_fulllist w =
              (Inl (RuntimeError
                      (lit ''Failed to get group '' @ [39] @ grp @ [39] @ lit '': ''
                         @ strip (stderr (proc e argv)))
                      (Some (CalledProcessError argv (returncode (proc e argv))
                               (stderr (proc e argv))))),
               w\<lparr>calls := calls w @ [argv]\<rparr>)"
    by (simp add: OscProvider_get_groups_def get_groups_try_def run_command_def Let_def
        reraise_simps)
next
  assume "users_command api_url search_text is_login is_email is_realname = Some command \<and>
          shlex_split e command = Some argv"
  with assms show "OscProvider_get_users e api_url search_text is_login is_email is_realname w =
              (Inl (RuntimeError
                      (lit ''Failed to get user '' @ [39] @ search_text @ [39] @ lit '': ''
                         @ strip (stderr (proc e argv)))
                      (Some (CalledProcessError argv (returncode (proc e argv))
                               (stderr (proc e argv))))),
               w\<lparr>calls := calls w @ [argv]\<rparr>)"
    by (simp add: OscProvider_get_users_def get_users_try_def run_command_def Let_def
        reraise_simps)
next
  assume "shlex_split e (packages_command api_url project) = Some argv"
  with assms show "OscProvider_list_packages e api_url project w =
              (Inl (CalledProcessError argv (returncode (proc e argv)) (stderr (proc e argv))),
               w\<lparr>calls := calls w @ [argv]\<rparr>)"
    by (simp add: OscProvider_list_packages_def run_command_def Let_def)
next
  assume "shlex_split e (artifacts_command api_url project package repo_name) = Some argv"
  with assms show "OscProvider_list_artifacts e api_url project package repo_name invalid_start
                invalid_extensions w =
              (Inl (CalledProcessError argv (returncode (proc e argv)) (stderr (proc e argv))),
               w\<lparr>calls := calls w @ [argv]\<rparr>)"
    by (simp add: OscProvider_list_artifacts_def run_command_def Let_def)
qed

text \<open>
  The scenario of section 8: the simulated command exits with code 1 and the text
  \<^verbatim>\<open>Group not found\<close>, followed by a newline, on stderr.
\<close>

theorem nonzero_exit_is_raised_witness:
  "OscProvider_get_groups (sim_env 1 [] (lit ''Group not found'' @ [10]) None)
     (lit ''https://api.example.org'') (lit ''qa'') False world0 =
     (Inl (RuntimeError (lit ''Failed to get group '' @ [39] @ lit ''qa'' @ [39] @ lit '': ''
                           @ lit ''Group not found'')
             (Some (CalledProcessError
                      [groups_command (lit ''https://api.example.org'') (lit ''qa'')] 1
                      (lit ''Group not found'' @ [10])))),
      world0\<lparr>calls := [[groups_command (lit ''https://api.example.org'') (lit ''qa'')]]\<rparr>)
   \<and> OscProvider_list_packages (sim_env 1 [] (lit ''Group not found'' @ [10]) None)
     (lit ''https://api.example.org'') (lit ''proj'') world0 =
     (Inl (CalledProcessError [packages_command (lit ''https://api.example.org'') (lit ''proj'')]
             1 (lit ''Group not found'' @ [10])),
      world0\<lparr>calls := [[packages_command (lit ''https://api.example.org'') (lit ''proj'')]]\<rparr>)"
proof -
  let ?e = "sim_env 1 [] (lit ''Group not found'' @ [10]) None"
  let ?u = "lit ''https://api.example.org''"
  let ?g = "groups_command ?u (lit ''qa'')"
  let ?p = "packages_command ?u (lit ''proj'')"
  have code: "returncode (proc ?e [?g]) \<noteq> 0" "returncode (proc ?e [?p]) \<noteq> 0"
    by (simp_all add: sim_env_def)
  have split: "shlex_split ?e ?g = Some [?g]" "shlex_split ?e ?p = Some [?p]"
    by (simp_all add: sim_env_def)
  have err: "strip (lit ''Group not found'' @ [10]) = lit ''Group not found''"
    by (simp add: str_simps)
  have vals: "returncode (proc ?e [?g]) = 1" "stderr (proc ?e [?g]) = lit ''Group not found'' @ [10]"
    "returncode (proc ?e [?p]) = 1" "stderr (proc ?e [?p]) = lit ''Group not found'' @ [10]"
    "calls world0 = []"
    by (simp_all add: sim_env_def world0_def)
  note get_groups_fails =
    nonzero_exit_is_raised [where e = ?e and argv = "[?g]" and api_url = ?u
      and grp = "lit ''qa''" and is_fulllist = False and w = world0,
      OF code(1), THEN conjunct1, THEN mp, OF split(1)]
  note list_packages_fails =
    nonzero_exit_is_raised [where e = ?e and argv = "[?p]" and api_url = ?u
      and project = "lit ''proj''" and w = world0,
      OF code(2), THEN conjunct2, THEN conjunct2, THEN conjunct1, THEN mp, OF split(2)]
  from get_groups_fails
  have first: "OscProvider_get_groups ?e ?u (lit ''qa'') False world0 =
     (Inl (RuntimeError (lit ''Failed to get group '' @ [39] @ lit ''qa'' @ [39] @ lit '': ''
                           @ lit ''Group not found'')
             (Some (CalledProcessError [?g] 1 (lit ''Group not found'' @ [10])))),
      world0\<lparr>calls := [[?g]]\<rparr>)"
    by (simp add: err vals)
  from list_packages_fails
  have second: "OscProvider_list_packages ?e ?u (lit ''proj'') world0 =
     (Inl (CalledProcessError [?p] 1 (lit ''Group not found'' @ [10])), world0\<lparr>calls := [[?p]]\<rparr>)"
    by (simp add: vals)
  from first second show ?thesis ..
qed

lemma lit_keys_distinct:
  "lit ''Group'' \<noteq> lit ''Email''" "lit ''Group'' \<noteq> lit ''Maintainers''"
  "lit ''Group'' \<noteq> lit ''Users''" "lit ''Email'' \<noteq> lit ''Maintainers''"
  "lit ''Email'' \<noteq> lit ''Users''" "lit ''Maintainers'' \<noteq> lit ''Users''"
  by (simp_all add: lit_def)

lemma group_info_keys:
  "group_info tree is_fulllist (lit ''Group'') =
     Some (case find_elem tree (lit ''title'') of Some t \<Rightarrow> of_opt (etext t) | None \<Rightarrow> PyNone)"
  "group_info tree is_fulllist (lit ''Email'') =
     Some (case find_elem tree (lit ''email'') of Some t \<Rightarrow> of_opt (etext t) | None \<Rightarrow> PyNone)"
  "group_info tree is_fulllist (lit ''Maintainers'') =
     Some (PyList (map (\<lambda>t. of_opt (get_attr t (lit ''userid'')))
                     (findall tree (lit ''maintainer''))))"
  by (simp_all add: group_info_def Let_def lit_keys_distinct)

lemma get_groups_Inr:
  assumes "fst (OscProvider_get_groups e api_url grp is_fulllist w) = Inr i"
  shows "\<exists>tree. i = group_info tree is_fulllist"
  using assms
  by (auto simp: OscProvider_get_groups_def get_groups_try_def run_command_def Let_def
      split: option.splits sum.splits if_splits)

text \<open>
  Claim C9. Whatever \<^verbatim>\<open>OscProvider.get_groups\<close> returns is a dictionary with the keys
  \<^verbatim>\<open>Group\<close>, \<^verbatim>\<open>Email\<close> and \<^verbatim>\<open>Maintainers\<close>, hence not empty; the first two
  hold \<^verbatim>\<open>None\<close> when the tree has no \<^verbatim>\<open>title\<close> or \<^verbatim>\<open>email\<close> child, the third the
  empty list when it has no \<^verbatim>\<open>maintainer\<close> child. So the test \<^verbatim>\<open>if not info\<close> of
  the wrapper in users.py never succeeds: the wrapper returns what the facade returns,
  and its error \<^verbatim>\<open>not found\<close> is never the result.
\<close>

theorem get_groups_never_empty:
  "(\<forall>i. fst (OscProvider_get_groups e api_url grp is_fulllist w) = Inr i \<longrightarrow>
      {lit ''Group'', lit ''Email'', lit ''Maintainers''} \<subseteq> dom i \<and> dom i \<noteq> {}) \<and>
   (find_elem tree (lit ''title'') = None \<longrightarrow>
      group_info tree is_fulllist (lit ''Group'') = Some PyNone) \<and>
   (find_elem tree (lit ''email'') = None \<longrightarrow>
      group_info tree is_fulllist (lit ''Email'') = Some PyNone) \<and>
   (findall tree (lit ''maintainer'') = [] \<longrightarrow>
      group_info tree is_fulllist (lit ''Maintainers'') = Some (PyList [])) \<and>
   users_get_groups e api_url grp is_fulllist w =
     DataSourcer_get_groups e api_url grp is_fulllist w \<and>
   fst (users_get_groups e api_url grp is_fulllist w) \<noteq>
     Inl (RuntimeError (grp @ lit '' not found.'') None)"
proof -
  have keys: "{lit ''Group'', lit ''Email'', lit ''Maintainers''} \<subseteq> dom i \<and> dom i \<noteq> {}"
    if "fst (OscProvider_get_groups e api_url grp is_fulllist w) = Inr i" for i
  proof -
    from get_groups_Inr [OF that] obtain t where "i = group_info t is_fulllist"
      by blast
    then show ?thesis
      using group_info_keys [of t is_fulllist] by (auto simp: dom_def)
  qed
  have same: "users_get_groups e api_url grp is_fulllist w =
     DataSourcer_get_groups e api_url grp is_fulllist w"
  proof (cases "OscProvider_get_groups e api_url grp is_fulllist w")
    case (Pair r w')
    show ?thesis
    proof (cases r)
      case (Inl err)
      with Pair show ?thesis
        by (simp add: users_get_groups_def DataSourcer_get_groups_def)
    next
      case (Inr i)
      with Pair keys [of i] have "dom i \<noteq> {}"
        by simp
      with Pair Inr show ?thesis
        by (simp add: users_get_groups_def DataSourcer_get_groups_def)
    qed
  qed
  have other: "fst (OscProvider_get_groups e api_url grp is_fulllist w) \<noteq>
     Inl (RuntimeError (grp @ lit '' not found.'') None)"
  proof
    assume a: "fst (OscProvider_get_groups e api_url grp is_fulllist w) =
      Inl (RuntimeError (grp @ lit '' not found.'') None)"
    obtain r w' where r: "get_groups_try e api_url grp is_fulllist w = (r, w')"
      by (cases "get_groups_try e api_url grp is_fulllist w")
    with a obtain err where err: "r = Inl err"
      "reraise (lit ''Failed to get group '') grp err =
         RuntimeError (grp @ lit '' not found.'') None"
      by (auto simp: OscProvider_get_groups_def split: sum.splits)
    from err(2) have "err = RuntimeError (grp @ lit '' not found.'') None"
      by (cases err) (simp_all add: reraise_def)
    with r err(1) show False
      by (auto simp: get_groups_try_def run_command_def Let_def
          split: option.splits sum.splits if_splits)
  qed
  show ?thesis
    using keys same other group_info_keys [of tree is_fulllist]
    by (simp add: DataSourcer_get_groups_def)
qed

text \<open>
  The group document of section 8, a title and two maintainers, with the full list not
  requested: the wrapper returns the dictionary and not the error.
\<close>

theorem get_groups_never_empty_witness:
  "fst (OscProvider_get_groups
          (sim_env 0 (lit ''<group/>'') []
             (Some (Element (lit ''group'') [] None
                [Element (lit ''title'') [] (Some (lit ''g'')) [],
                 Element (lit ''maintainer'') [(lit ''userid'', lit ''a'')] None [],
                 Element (lit ''maintainer'') [(lit ''userid'', lit ''b'')] None []])))
          (lit ''https://api.example.org'') (lit ''g'') False world0) =
     Inr (group_info (Element (lit ''group'') [] None
                [Element (lit ''title'') [] (Some (lit ''g'')) [],
                 Element (lit ''maintainer'') [(lit ''userid'', lit ''a'')] None [],
                 Element (lit ''maintainer'') [(lit ''userid'', lit ''b'')] None []]) False)
   \<and> dom (group_info (Element (lit ''group'') [] None
                [Element (lit ''title'') [] (Some (lit ''g'')) [],
                 Element (lit ''maintainer'') [(lit ''userid'', lit ''a'')] None [],
                 Element (lit ''maintainer'') [(lit ''userid'', lit ''b'')] None []]) False) \<noteq> {}
   \<and> group_info (Element (lit ''group'') [] None
                [Element (lit ''title'') [] (Some (lit ''g'')) [],
                 Element (lit ''maintainer'') [(lit ''userid'', lit ''a'')] None [],
                 Element (lit ''maintainer'') [(lit ''userid'', lit ''b'')] None []]) False
         (lit ''Email'') = Some PyNone
   \<and> group_info (Element (lit ''group'') [] None []) False (lit ''Maintainers'') =
         Some (PyList [])"
proof -
  let ?t = "Element (lit ''group'') [] None
                [Element (lit ''title'') [] (Some (lit ''g'')) [],
                 Element (lit ''maintainer'') [(lit ''userid'', lit ''a'')] None [],
                 Element (lit ''maintainer'') [(lit ''userid'', lit ''b'')] None []]"
  let ?e = "sim_env 0 (lit ''<group/>'') [] (Some ?t)"
  let ?u = "lit ''https://api.example.org''"
  have run: "fst (OscProvider_get_groups ?e ?u (lit ''g'') False world0) =
               Inr (group_info ?t False)"
    by (simp add: OscProvider_get_groups_def get_groups_try_def sim_simps)
  have no_email: "find_elem ?t (lit ''email'') = None"
    by (simp add: find_elem_def lit_def)
  have no_maint: "findall (Element (lit ''group'') [] None []) (lit ''maintainer'') = []"
    by (simp add: findall_def)
  note thm1 = get_groups_never_empty [where e = ?e and api_url = ?u and grp = "lit ''g''"
      and is_fulllist = False and w = world0 and tree = ?t]
  note thm2 = get_groups_never_empty [where e = ?e and api_url = ?u and grp = "lit ''g''"
      and is_fulllist = False and w = world0 and tree = "Element (lit ''group'') [] None []"]
  from thm1 run have "dom (group_info ?t False) \<noteq> {}"
    by blast
  moreover from thm1 no_email have "group_info ?t False (lit ''Email'') = Some PyNone"
    by blast
  moreover from thm2 no_maint
  have "group_info (Element (lit ''group'') [] None []) False (lit ''Maintainers'') =
          Some (PyList [])"
    by blast
  ultimately show ?thesis
    using run by blast
qed

section \<open>The iteration driver\<close>

lemma re_search_iff:
  "re_search re pattern s \<longleftrightarrow> (\<exists>i\<le>length s. re_match re pattern s i)"
proof -
  have "set [0 ..< Suc (length s)] = {i. i \<le> length s}"
    by auto
  then show ?thesis
    by (simp only: re_search_def list_ex_iff) blast
qed

lemma print_lines_printed: "print_lines ls w = w\<lparr>printed := printed w @ ls\<rparr>"
  by (induction ls arbitrary: w) simp_all

text \<open>
  The packages before the first failing fetch: each is treated, and the loop goes on
  with the rest.
\<close>

lemma packages_loop_append:
  assumes name: "repo_info (lit ''name'') = Some repo_name"
    and ok: "\<forall>package \<in> set pre. re_search re pattern package \<longrightarrow>
           shlex_split e (artifacts_command api_url project package repo_name)
             = Some (argv_of package) \<and>
           returncode (proc e (argv_of package)) = 0"
  shows "packages_loop re e api_url project invalid_start invalid_extensions repo_info pattern
           (pre @ rest) w =
         packages_loop re e api_url project invalid_start invalid_extensions repo_info pattern
           rest
           (w\<lparr>calls := calls w @ map argv_of (filter (re_search re pattern) pre),
              printed := printed w @
                concat (map (\<lambda>package. filter (kept repo_name invalid_start invalid_extensions)
                               (map strip (splitlines (strip (stdout (proc e (argv_of package)))))))
                          (filter (re_search re pattern) pre)),
              progress := progress w + length pre\<rparr>)"
  using ok
proof (induction pre arbitrary: w)
  case Nil
  show ?case by simp
next
  case (Cons package pre)
  from Cons.prems have rest: "\<forall>package \<in> set pre. re_search re pattern package \<longrightarrow>
           shlex_split e (artifacts_command api_url project package repo_name)
             = Some (argv_of package) \<and>
           returncode (proc e (argv_of package)) = 0"
    by simp
  show ?case
  proof (cases "re_search re pattern package")
    case True
    with Cons.prems have
      "shlex_split e (artifacts_command api_url project package repo_name)
         = Some (argv_of package)"
      "returncode (proc e (argv_of package)) = 0"
      by simp_all
    from list_artifacts_ok [OF this] True name show ?thesis
      by (simp add: Cons.IH [OF rest] DataSourcer_list_artifacts_def print_lines_printed
          advance_def)
  next
    case False
    then show ?thesis
      by (simp add: Cons.IH [OF rest] advance_def)
  qed
qed

text \<open>A matching package whose fetch fails: the error leaves the loop.\<close>

lemma packages_loop_fail:
  assumes "repo_info (lit ''name'') = Some repo_name"
    and "re_search re pattern package"
    and "\<forall>argv. shlex_split e (artifacts_command api_url project package repo_name) = Some argv
           \<longrightarrow> returncode (proc e argv) \<noteq> 0"
  shows "packages_loop re e api_url project invalid_start invalid_extensions repo_info pattern
           (package # post) w =
         (case shlex_split e (artifacts_command api_url project package repo_name) of
            None \<Rightarrow> (Inl ValueError, w)
          | Some argv \<Rightarrow>
              (Inl (CalledProcessError argv (returncode (proc e argv)) (stderr (proc e argv))),
               w\<lparr>calls := calls w @ [argv]\<rparr>))"
  using assms
  by (simp add: DataSourcer_list_artifacts_def OscProvider_list_artifacts_def run_command_def
      Let_def split: option.splits)

text \<open>
  Claim C8, as amended. Let the descriptor hold a pattern that compiles and a name. The
  driver goes through the packages in order. For each package it reaches, it fetches
  the artifact list (runs the listing command) and prints the filtered lines if and only
  if \<^verbatim>\<open>re.search\<close> finds the pattern in the package name, that is, if the pattern
  matches from some index of the name on, not only from the first and without having to
  reach the end; a package in which the pattern is not found is skipped, and the
  progress counter advances for it all the same.

  When every fetch of a matching package succeeds, every package is reached and the
  driver returns normally. When a matching package has a fetch that fails, because
  \<^verbatim>\<open>shlex.split\<close> rejects the command text or the command exits with a non-zero
  code, the error leaves the driver at once: the packages before it have been treated
  as said, for the failing package nothing is printed and the counter does not
  advance, and the packages after it are neither fetched nor counted.
\<close>

theorem list_artifacs_selects_by_search:
  assumes "repo_info (lit ''pattern'') = Some pat"
    and "re_compile re pat = Some pattern"
    and "repo_info (lit ''name'') = Some repo_name"
    and "\<forall>package \<in> set pre. re_search re pattern package \<longrightarrow>
           shlex_split e (artifacts_command api_url project package repo_name)
             = Some (argv_of package) \<and>
           returncode (proc e (argv_of package)) = 0"
  shows "(\<exists>w'. list_artifacs re e api_url project pre invalid_start invalid_extensions
                repo_info w = (Inr (), w') \<and>
           calls w' = calls w @ map argv_of (filter (re_search re pattern) pre) \<and>
           printed w' = printed w @
              concat (map (\<lambda>package. filter (kept repo_name invalid_start invalid_extensions)
                             (map strip (splitlines (strip (stdout (proc e (argv_of package)))))))
                        (filter (re_search re pattern) pre)) \<and>
           progress w' = progress w + length pre) \<and>
         (re_search re pattern failing \<and>
          (\<forall>argv. shlex_split e (artifacts_command api_url project failing repo_name) = Some argv
             \<longrightarrow> returncode (proc e argv) \<noteq> 0) \<longrightarrow>
          (\<exists>err w'. list_artifacs re e api_url project (pre @ failing # post) invalid_start
                       invalid_extensions repo_info w = (Inl err, w') \<and>
             err = (case shlex_split e (artifacts_command api_url project failing repo_name) of
                      None \<Rightarrow> ValueError
                    | Some argv \<Rightarrow>
                        CalledProcessError argv (returncode (proc e argv))
                          (stderr (proc e argv))) \<and>
             calls w' = calls w @ map argv_of (filter (re_search re pattern) pre) @
               (case shlex_split e (artifacts_command api_url project failing repo_name) of
                  None \<Rightarrow> [] | Some argv \<Rightarrow> [argv]) \<and>
             printed w' = printed w @
               concat (map (\<lambda>package. filter (kept repo_name invalid_start invalid_extensions)
                             (map strip (splitlines (strip (stdout (proc e (argv_of package)))))))
                        (filter (re_search re pattern) pre)) \<and>
             progress w' = progress w + length pre)) \<and>
         (\<forall>package. re_search re pattern package \<longleftrightarrow>
                      (\<exists>i\<le>length package. re_match re pattern package i))"
proof (intro conjI impI)
  have "packages_loop re e api_url project invalid_start invalid_extensions repo_info pattern
           (pre @ []) w =
         packages_loop re e api_url project invalid_start invalid_extensions repo_info pattern
           []
           (w\<lparr>calls := calls w @ map argv_of (filter (re_search re pattern) pre),
              printed := printed w @
                concat (map (\<lambda>package. filter (kept repo_name invalid_start invalid_extensions)
                               (map strip (splitlines (strip (stdout (proc e (argv_of package)))))))
                          (filter (re_search re pattern) pre)),
              progress := progress w + length pre\<rparr>)"
    by (rule packages_loop_append) (fact assms(3), fact assms(4))
  with assms(1,2)
  show "\<exists>w'. list_artifacs re e api_url project pre invalid_start invalid_extensions
                repo_info w = (Inr (), w') \<and>
           calls w' = calls w @ map argv_of (filter (re_search re pattern) pre) \<and>
           printed w' = printed w @
              concat (map (\<lambda>package. filter (kept repo_name invalid_start invalid_extensions)
                             (map strip (splitlines (strip (stdout (proc e (argv_of package)))))))
                        (filter (re_search re pattern) pre)) \<and>
           progress w' = progress w + length pre"
    by (simp add: list_artifacs_def)
next
  assume fail: "re_search re pattern failing \<and>
          (\<forall>argv. shlex_split e (artifacts_command api_url project failing repo_name) = Some argv
             \<longrightarrow> returncode (proc e argv) \<noteq> 0)"
  let ?w = "w\<lparr>calls := calls w @ map argv_of (filter (re_search re pattern) pre),
              printed := printed w @
                concat (map (\<lambda>package. filter (kept repo_name invalid_start invalid_extensions)
                               (map strip (splitlines (strip (stdout (proc e (argv_of package)))))))
                          (filter (re_search re pattern) pre)),
              progress := progress w + length pre\<rparr>"
  have "packages_loop re e api_url project invalid_start invalid_extensions repo_info pattern
           (pre @ failing # post) w =
         packages_loop re e api_url project invalid_start invalid_extensions repo_info pattern
           (failing # post) ?w"
    by (rule packages_loop_append) (fact assms(3), fact assms(4))
  also have "\<dots> =
         (case shlex_split e (artifacts_command api_url project failing repo_name) of
            None \<Rightarrow> (Inl ValueError, ?w)
          | Some argv \<Rightarrow>
              (Inl (CalledProcessError argv (returncode (proc e argv)) (stderr (proc e argv))),
               ?w\<lparr>calls := calls ?w @ [argv]\<rparr>))"
    using assms(3) fail by (intro packages_loop_fail) simp_all
  finally have loop: "packages_loop re e api_url project invalid_start invalid_extensions
           repo_info pattern (pre @ failing # post) w =
         (case shlex_split e (artifacts_command api_url project failing repo_name) of
            None \<Rightarrow> (Inl ValueError, ?w)
          | Some argv \<Rightarrow>
              (Inl (CalledProcessError argv (returncode (proc e argv)) (stderr (proc e argv))),
               ?w\<lparr>calls := calls ?w @ [argv]\<rparr>))" .
  from assms(1,2)
  show "\<exists>err w'. list_artifacs re e api_url project (pre @ failing # post) invalid_start
                       invalid_extensions repo_info w = (Inl err, w') \<and>
             err = (case shlex_split e (artifacts_command api_url project failing repo_name) of
                      None \<Rightarrow> ValueError
                    | Some argv \<Rightarrow>
                        CalledProcessError argv (returncode (proc e argv))
                          (stderr (proc e argv))) \<and>
             calls w' = calls w @ map argv_of (filter (re_search re pattern) pre) @
               (case shlex_split e (artifacts_command api_url project failing repo_name) of
                  None \<Rightarrow> [] | Some argv \<Rightarrow> [argv]) \<and>
             printed w' = printed w @
               concat (map (\<lambda>package. filter (kept repo_name invalid_start invalid_extensions)
                             (map strip (splitlines (strip (stdout (proc e (argv_of package)))))))
                        (filter (re_search re pattern) pre)) \<and>
             progress w' = progress w + length pre"
    by (simp add: list_artifacs_def loop split: option.splits)
next
  show "\<forall>package. re_search re pattern package \<longleftrightarrow>
                      (\<exists>i\<le>length package. re_match re pattern package i)"
    by (simp add: re_search_iff)
qed

text \<open>
  With patterns that are literal texts and a listing command that fails for the package
  \<^verbatim>\<open>zlib-devel\<close> only. The pattern \<^verbatim>\<open>lib\<close> is found inside \<^verbatim>\<open>libpng\<close> and
  inside \<^verbatim>\<open>zlib-devel\<close>, which it neither starts nor equals, and not in \<^verbatim>\<open>gcc\<close>.
  Over the packages \<^verbatim>\<open>gcc\<close>, \<^verbatim>\<open>libpng\<close> the driver returns normally, with one
  command run, one line printed and the counter at 2. With \<^verbatim>\<open>zlib-devel\<close> and two
  more packages after them it fails with the error of that command, the counter still
  at 2.
\<close>

theorem list_artifacs_selects_by_search_witness:
  "(\<exists>w'. list_artifacs literal_re
           (failing_env [artifacts_command (lit ''https://api.example.org'') (lit ''proj'')
                           (lit ''zlib-devel'') (lit ''repo'')]
              (lit ''png.rpm'' @ [10] @ lit ''png.log''))
           (lit ''https://api.example.org'') (lit ''proj'') [lit ''gcc'', lit ''libpng'']
           [lit ''_''] [lit ''.log'']
           [lit ''name'' \<mapsto> lit ''repo'', lit ''pattern'' \<mapsto> lit ''lib''] world0 = (Inr (), w') \<and>
         calls w' = [[artifacts_command (lit ''https://api.example.org'') (lit ''proj'')
                        (lit ''libpng'') (lit ''repo'')]] \<and>
         printed w' = [lit ''png.rpm''] \<and>
         progress w' = 2) \<and>
   (\<exists>w'. list_artifacs literal_re
           (failing_env [artifacts_command (lit ''https://api.example.org'') (lit ''proj'')
                           (lit ''zlib-devel'') (lit ''repo'')]
              (lit ''png.rpm'' @ [10] @ lit ''png.log''))
           (lit ''https://api.example.org'') (lit ''proj'')
           ([lit ''gcc'', lit ''libpng''] @ lit ''zlib-devel'' # [lit ''make'', lit ''libz''])
           [lit ''_''] [lit ''.log'']
           [lit ''name'' \<mapsto> lit ''repo'', lit ''pattern'' \<mapsto> lit ''lib''] world0 =
           (Inl (CalledProcessError
                   [artifacts_command (lit ''https://api.example.org'') (lit ''proj'')
                      (lit ''zlib-devel'') (lit ''repo'')] 1 (lit ''not found'')), w') \<and>
         progress w' = 2)"
proof -
  let ?u = "lit ''https://api.example.org''"
  let ?a = "\<lambda>package. [artifacts_command ?u (lit ''proj'') package (lit ''repo'')]"
  let ?bad = "artifacts_command ?u (lit ''proj'') (lit ''zlib-devel'') (lit ''repo'')"
  let ?e = "failing_env [?bad] (lit ''png.rpm'' @ [10] @ lit ''png.log'')"
  let ?r = "[lit ''name'' \<mapsto> lit ''repo'', lit ''pattern'' \<mapsto> lit ''lib'']"
  let ?pre = "[lit ''gcc'', lit ''libpng'']"
  let ?out = "\<lambda>package. filter (kept (lit ''repo'') [lit ''_''] [lit ''.log''])
                 (map strip (splitlines (strip (stdout (proc ?e (?a package))))))"
  have pat: "?r (lit ''pattern'') = Some (lit ''lib'')"
    by simp
  have comp: "re_compile literal_re (lit ''lib'') = Some (lit ''lib'')"
    by (simp add: literal_re_def)
  have name: "?r (lit ''name'') = Some (lit ''repo'')"
    by (simp add: lit_def)
  have differ: "artifacts_command ?u (lit ''proj'') (lit ''libpng'') (lit ''repo'') \<noteq> ?bad"
    by (simp add: artifacts_command_def lit_def)
  have sel: "filter (re_search literal_re (lit ''lib'')) ?pre = [lit ''libpng'']"
    by (simp add: re_search_def literal_re_def lit_def)
  have ok: "\<forall>package \<in> set ?pre. re_search literal_re (lit ''lib'') package \<longrightarrow>
           shlex_split ?e (artifacts_command ?u (lit ''proj'') package (lit ''repo''))
             = Some (?a package) \<and>
           returncode (proc ?e (?a package)) = 0"
    using differ by (simp add: failing_env_def re_search_def literal_re_def lit_def)
  have bad: "re_search literal_re (lit ''lib'') (lit ''zlib-devel'') \<and>
          (\<forall>argv. shlex_split ?e (artifacts_command ?u (lit ''proj'') (lit ''zlib-devel'')
                                   (lit ''repo'')) = Some argv
             \<longrightarrow> returncode (proc ?e argv) \<noteq> 0)"
    by (simp add: failing_env_def re_search_def literal_re_def lit_def)
  note inst = list_artifacs_selects_by_search [where argv_of = ?a
      and invalid_start = "[lit ''_'']" and invalid_extensions = "[lit ''.log'']"
      and w = world0 and failing = "lit ''zlib-devel''" and post = "[lit ''make'', lit ''libz'']",
      OF pat comp name ok]
  from inst [THEN conjunct1]
  obtain w1 where run1: "list_artifacs literal_re ?e ?u (lit ''proj'') ?pre [lit ''_'']
        [lit ''.log''] ?r world0 = (Inr (), w1)"
    and c1: "calls w1 = calls world0 @ map ?a (filter (re_search literal_re (lit ''lib'')) ?pre)"
    and p1: "printed w1 = printed world0 @
              concat (map ?out (filter (re_search literal_re (lit ''lib'')) ?pre))"
    and g1: "progress w1 = progress world0 + length ?pre"
    by blast
  from c1 have c1': "calls w1 = [?a (lit ''libpng'')]"
    unfolding sel by (simp add: world0_def)
  from p1 have "printed w1 = printed world0 @ concat (map ?out [lit ''libpng''])"
    unfolding sel .
  also have "\<dots> = [lit ''png.rpm'']"
    using differ by (simp add: failing_env_def kept_def str_simps world0_def)
  finally have p1': "printed w1 = [lit ''png.rpm'']" .
  from g1 have g1': "progress w1 = 2"
    by (simp add: world0_def)
  from inst [THEN conjunct2, THEN conjunct1, THEN mp, OF bad]
  obtain err w2 where run2: "list_artifacs literal_re ?e ?u (lit ''proj'')
        (?pre @ lit ''zlib-devel'' # [lit ''make'', lit ''libz'']) [lit ''_'']
        [lit ''.log''] ?r world0 = (Inl err, w2)"
    and err: "err = (case shlex_split ?e (artifacts_command ?u (lit ''proj'')
                                            (lit ''zlib-devel'') (lit ''repo'')) of
                      None \<Rightarrow> ValueError
                    | Some argv \<Rightarrow>
                        CalledProcessError argv (returncode (proc ?e argv))
                          (stderr (proc ?e argv)))"
    and g2: "progress w2 = progress world0 + length ?pre"
    by blast
  from err have err': "err = CalledProcessError [?bad] 1 (lit ''not found'')"
    by (simp add: failing_env_def)
  from g2 have g2': "progress w2 = 2"
    by (simp add: world0_def)
  from run1 c1' p1' g1' have first:
    "\<exists>w'. list_artifacs literal_re ?e ?u (lit ''proj'') ?pre [lit ''_''] [lit ''.log''] ?r
             world0 = (Inr (), w') \<and>
          calls w' = [?a (lit ''libpng'')] \<and> printed w' = [lit ''png.rpm''] \<and> progress w' = 2"
    by (intro exI [of _ w1] conjI)
  from run2 [unfolded err'] g2' have second:
    "\<exists>w'. list_artifacs literal_re ?e ?u (lit ''proj'')
        (?pre @ lit ''zlib-devel'' # [lit ''make'', lit ''libz'']) [lit ''_'']
        [lit ''.log''] ?r world0 = (Inl (CalledProcessError [?bad] 1 (lit ''not found'')), w') \<and>
          progress w' = 2"
    by (intro exI [of _ w2] conjI)
  from first second show ?thesis
    by (rule conjI)
qed

text \<open>
  The claim as stated fails when a fetch fails. Of the packages \<^verbatim>\<open>libpng\<close>,
  \<^verbatim>\<open>zlib-devel\<close>, \<^verbatim>\<open>gcc\<close>, \<^verbatim>\<open>libz\<close> the pattern \<^verbatim>\<open>lib\<close> is found in all but
  \<^verbatim>\<open>gcc\<close>. The listing of \<^verbatim>\<open>zlib-devel\<close> exits with code 1: the driver ends with
  that error, having run two commands. \<^verbatim>\<open>libz\<close> matches and is never fetched, and the
  counter stands at 1 and not at 4: it has not advanced for \<^verbatim>\<open>gcc\<close>.
\<close>

theorem list_artifacs_selects_by_search_counterexample:
  "list_artifacs literal_re
     (failing_env [artifacts_command (lit ''https://api.example.org'') (lit ''proj'')
                     (lit ''zlib-devel'') (lit ''repo'')] (lit ''png.rpm''))
     (lit ''https://api.example.org'') (lit ''proj'')
     [lit ''libpng'', lit ''zlib-devel'', lit ''gcc'', lit ''libz'']
     [lit ''_''] [lit ''.log'']
     [lit ''name'' \<mapsto> lit ''repo'', lit ''pattern'' \<mapsto> lit ''lib''] world0 =
   (Inl (CalledProcessError
           [artifacts_command (lit ''https://api.example.org'') (lit ''proj'')
              (lit ''zlib-devel'') (lit ''repo'')] 1 (lit ''not found'')),
    \<lparr>calls = [[artifacts_command (lit ''https://api.example.org'') (lit ''proj'')
                 (lit ''libpng'') (lit ''repo'')],
              [artifacts_command (lit ''https://api.example.org'') (lit ''proj'')
                 (lit ''zlib-devel'') (lit ''repo'')]],
     printed = [lit ''png.rpm''], progress = 1\<rparr>)
   \<and> re_search literal_re (lit ''lib'') (lit ''libz'')
   \<and> \<not> re_search literal_re (lit ''lib'') (lit ''gcc'')"
proof -
  let ?u = "lit ''https://api.example.org''"
  let ?bad = "artifacts_command ?u (lit ''proj'') (lit ''zlib-devel'') (lit ''repo'')"
  have differ: "artifacts_command ?u (lit ''proj'') (lit ''libpng'') (lit ''repo'') \<noteq> ?bad"
    by (simp add: artifacts_command_def lit_def)
  have found: "re_search literal_re (lit ''lib'') (lit ''libpng'')"
    "re_search literal_re (lit ''lib'') (lit ''zlib-devel'')"
    "re_search literal_re (lit ''lib'') (lit ''libz'')"
    "\<not> re_search literal_re (lit ''lib'') (lit ''gcc'')"
    by (simp_all add: re_search_def literal_re_def lit_def)
  have lines: "artifacts_loop (lit ''repo'') [lit ''_''] [lit ''.log'']
                 (splitlines (strip (lit ''png.rpm''))) [] = [lit ''png.rpm'']"
    by (simp add: str_simps)
  have nonempty: "lit ''png.rpm'' \<noteq> []" and keys: "lit ''name'' \<noteq> lit ''pattern''"
    by (simp_all add: lit_def)
  have comp: "re_compile literal_re (lit ''lib'') = Some (lit ''lib'')"
    by (simp add: literal_re_def)
  have run: "list_artifacs literal_re (failing_env [?bad] (lit ''png.rpm'')) ?u (lit ''proj'')
     [lit ''libpng'', lit ''zlib-devel'', lit ''gcc'', lit ''libz'']
     [lit ''_''] [lit ''.log'']
     [lit ''name'' \<mapsto> lit ''repo'', lit ''pattern'' \<mapsto> lit ''lib''] world0 =
   (Inl (CalledProcessError [?bad] 1 (lit ''not found'')),
    \<lparr>calls = [[artifacts_command ?u (lit ''proj'') (lit ''libpng'') (lit ''repo'')], [?bad]],
     printed = [lit ''png.rpm''], progress = 1\<rparr>)"
    using differ nonempty keys
    by (simp add: list_artifacs_def found DataSourcer_list_artifacts_def
        OscProvider_list_artifacts_def run_command_def failing_env_def world0_def lines
        advance_def comp Let_def)
  from run found(3,4) show ?thesis
    by (intro conjI)
qed

end
